theory Spec2Isabelle
  imports Main
begin

section \<open>Values, errors and library text functions\<close>

text \<open>
  Go's \<^verbatim>\<open>any\<close> as far as the configuration and context maps of this plugin use it:
  strings, booleans, integers, slices, string slices and nested maps.
\<close>

datatype any =
    ANil
  | AString string
  | ABool bool
  | AInt int
  | ASlice "any list"
  | AStrings "string list"
  | AMap "(string \<times> any) list"

text \<open>
  Every error the plugin builds with \<^verbatim>\<open>fmt.Errorf\<close> is one constructor, carrying
  the values that the message formats and, for \<^verbatim>\<open>%w\<close>, the wrapped error.
  \<open>External\<close> stands for an error value made by a library (the matching engine, the
  database layer, the template engine); \<open>NotImplemented\<close> is the answer of an adapter
  that does not support incremental writes.
\<close>

datatype error =
    External string
  | NotImplemented
  | EnforcerNotInitialized string
  | ParseModel string error
  | BuildAdapter string error
  | CreateEnforcer string error
  | AdapterPathRequired string
  | UnknownAdapterType string string
  | AdapterDsnRequired string
  | UnsupportedGormDriver string string
  | OpenGormDb string error
  | CreateGormAdapter string error
  | GormMigrate error
  | ElementNotString nat any
  | NotASlice any
  | ObjectRequired string
  | ActionRequired string
  | ParseObjectTemplate string error
  | ParseActionTemplate string error
  | ResolveObject string error
  | ResolveAction string error
  | ModuleNotFound string string
  | EnforceFailed string error
  | RoleActionInvalid string string
  | AssignmentsRequired string
  | AssignmentInvalid string nat error
  | AssignmentTooShort string nat "string list"
  | ResolveAssignment string nat error
  | RuleElement nat error
  | RoleAssignFailed string string nat error

text \<open>
  \<^verbatim>\<open>strings.ToLower\<close>, on the UTF-8 bytes of the string. ASCII capitals are lowered.
  Two runes outside ASCII have an ASCII lower case and are lowered to it: U+0130
  (bytes C4 B0) to \<open>i\<close> and U+212A (bytes E2 84 AA) to \<open>k\<close>. Every other rune outside
  ASCII is lowered by Go to a rune outside ASCII; the model leaves its bytes as they
  are, which gives the same answer whenever the result is compared with an ASCII word,
  the only use the plugin makes of it.
\<close>

definition lower_char :: "char \<Rightarrow> char" where
  "lower_char c =
     (case map_of (zip ''ABCDEFGHIJKLMNOPQRSTUVWXYZ'' ''abcdefghijklmnopqrstuvwxyz'') c of
        Some l \<Rightarrow> l
      | None \<Rightarrow> c)"

fun ToLower :: "string \<Rightarrow> string" where
  "ToLower [] = []"
| "ToLower (c # cs) =
     (if c = CHR 0xC4 \<and> cs \<noteq> [] \<and> hd cs = CHR 0xB0
        then CHR ''i'' # ToLower (tl cs)
      else if c = CHR 0xE2 \<and> length cs \<ge> 2 \<and> hd cs = CHR 0x84 \<and> hd (tl cs) = CHR 0xAA
        then CHR ''k'' # ToLower (tl (tl cs))
      else lower_char c # ToLower cs)"

text \<open>\<^verbatim>\<open>strings.Contains\<close>: \<open>sub\<close> occurs in \<open>s\<close> as a contiguous block.\<close>

fun has_prefix :: "string \<Rightarrow> string \<Rightarrow> bool" where
  "has_prefix [] s = True"
| "has_prefix (p # ps) [] = False"
| "has_prefix (p # ps) (c # cs) = (p = c \<and> has_prefix ps cs)"

fun Contains :: "string \<Rightarrow> string \<Rightarrow> bool" where
  "Contains [] sub = (sub = [])"
| "Contains (c # cs) sub = (has_prefix sub (c # cs) \<or> Contains cs sub)"

section \<open>The relational adapter's row format\<close>

text \<open>
  The relational adapter stores every rule as one row of a fixed table: an identifier,
  the rule kind and six positional value columns.
\<close>

record casbinRule =
  ID :: nat
  Ptype :: string
  V0 :: string
  V1 :: string
  V2 :: string
  V3 :: string
  V4 :: string
  V5 :: string

text \<open>\<^verbatim>\<open>strings.Join\<close>: the elements separated by \<open>sep\<close>.\<close>

fun Join :: "string list \<Rightarrow> string \<Rightarrow> string" where
  "Join [] sep = []"
| "Join [x] sep = x"
| "Join (x # y # ys) sep = x @ sep @ Join (y # ys) sep"

text \<open>The value columns in the order in which both conversions walk them.\<close>

definition columns :: "casbinRule \<Rightarrow> string list" where
  "columns r = [V0 r, V1 r, V2 r, V3 r, V4 r, V5 r]"

text \<open>
  \<^verbatim>\<open>ruleToLine\<close> starts from the rule kind and appends the value columns until the
  first empty one, then joins the parts with a comma and a space.
\<close>

fun ruleToLine_loop :: "string list \<Rightarrow> string list \<Rightarrow> string list" where
  "ruleToLine_loop parts [] = parts"
| "ruleToLine_loop parts (v # vs) =
     (if v = [] then parts else ruleToLine_loop (parts @ [v]) vs)"

definition ruleToLine :: "casbinRule \<Rightarrow> string" where
  "ruleToLine rule = Join (ruleToLine_loop [Ptype rule] (columns rule)) '', ''"

text \<open>
  \<^verbatim>\<open>lineToRule\<close> writes the fields of the rule into the columns by position and
  leaves the loop at the seventh field; columns it never reaches keep the empty string.
\<close>

definition set_column :: "nat \<Rightarrow> string \<Rightarrow> casbinRule \<Rightarrow> casbinRule" where
  "set_column i v r =
     (if i = 0 then r\<lparr>V0 := v\<rparr>
      else if i = 1 then r\<lparr>V1 := v\<rparr>
      else if i = 2 then r\<lparr>V2 := v\<rparr>
      else if i = 3 then r\<lparr>V3 := v\<rparr>
      else if i = 4 then r\<lparr>V4 := v\<rparr>
      else if i = 5 then r\<lparr>V5 := v\<rparr>
      else r)"

fun lineToRule_loop :: "nat \<Rightarrow> string list \<Rightarrow> casbinRule \<Rightarrow> casbinRule" where
  "lineToRule_loop i [] r = r"
| "lineToRule_loop i (v # vs) r =
     (if i \<ge> 6 then r else lineToRule_loop (Suc i) vs (set_column i v r))"

definition lineToRule :: "string \<Rightarrow> string list \<Rightarrow> casbinRule" where
  "lineToRule ptype rule =
     lineToRule_loop 0 rule
       \<lparr>ID = 0, Ptype = ptype, V0 = [], V1 = [], V2 = [], V3 = [], V4 = [], V5 = []\<rparr>"

section \<open>The world outside the module: databases and files\<close>

text \<open>
  The relational adapter talks to a database through the \<^verbatim>\<open>gorm\<close> library, the file
  adapter reads and writes a file. Both live outside the process, so the model passes a
  world through every operation that can reach them. A database is its rule table,
  \<open>None\<close> as long as the table has not been created, together with the failures it
  is going to answer with, one per kind of statement, so that every error branch of the
  adapter can be reached. The columns \<open>ptype, v0..v5\<close> carry a unique index; the
  identifier column is never read by the adapter and stays zero in the model.

  A handle names the database behind a connection: the driver family, the data source
  name and a serial number. The serial number is zero for a database that lives at its
  data source name and is found again by the next connection. SQLite's data source
  name \<open>:memory:\<close> gives every connection a new, empty database of its own; the
  world counts the ones opened so far and the serial number tells them apart.
\<close>

datatype driver_family = Postgres | MySQL | SQLite

datatype db_op = OpOpen | OpMigrate | OpFind | OpDelete | OpCreate

record gorm_DB =
  table :: "casbinRule list option"
  faults :: "db_op \<Rightarrow> error option"

type_synonym db_handle = "driver_family \<times> string \<times> nat"

text \<open>
  The calls that reach an adapter through the \<^verbatim>\<open>persist.Adapter\<close> interface are
  written to a journal, in order, so that a property can say which calls an operation
  made.
\<close>

datatype adapter_call =
    LoadPolicyCall
  | SavePolicyCall "string list list" "string list list"
  | AddPolicyCall string string "string list"
  | RemovePolicyCall string string "string list"

record world =
  dbs :: "db_handle \<Rightarrow> gorm_DB option"
  opened :: nat
  files :: "string \<Rightarrow> string list option"
  journal :: "adapter_call list"

definition record_call :: "adapter_call \<Rightarrow> world \<Rightarrow> world" where
  "record_call c w = w\<lparr>journal := journal w @ [c]\<rparr>"

definition is_save :: "adapter_call \<Rightarrow> bool" where
  "is_save c = (case c of SavePolicyCall p g \<Rightarrow> True | _ \<Rightarrow> False)"

definition save_calls :: "world \<Rightarrow> adapter_call list" where
  "save_calls w = filter is_save (journal w)"

text \<open>
  The statements the adapter issues, as a model of the database library outside the
  repository. \<^verbatim>\<open>gorm.Open\<close> on SQLite's \<open>:memory:\<close> makes a new empty database.
  On any other data source name it opens the database that the world holds there,
  unless that database refuses the connection; where the world holds none, SQLite
  creates an empty database file and the other drivers fail to connect. A statement
  fails with the fault the database holds for its kind, and a statement on the rule
  table fails while the table does not exist; an insert also fails when it would put
  two rows with the same indexed columns into the table; a conditional delete matches
  on the non-empty fields of its pattern, as \<^verbatim>\<open>Where(&r)\<close> does with a struct.
\<close>

definition gorm_Open ::
  "driver_family \<Rightarrow> string \<Rightarrow> world \<Rightarrow> (error + db_handle) \<times> world" where
  "gorm_Open fam dsn w =
     (if fam = SQLite \<and> dsn = '':memory:''
      then (Inr (SQLite, dsn, Suc (opened w)),
            w\<lparr>opened := Suc (opened w),
              dbs := (dbs w)((SQLite, dsn, Suc (opened w))
                        \<mapsto> \<lparr>table = None, faults = (\<lambda>op. None)\<rparr>)\<rparr>)
      else (case dbs w (fam, dsn, 0) of
              None \<Rightarrow>
                if fam = SQLite
                then (Inr (SQLite, dsn, 0),
                      w\<lparr>dbs := (dbs w)((SQLite, dsn, 0)
                                \<mapsto> \<lparr>table = None, faults = (\<lambda>op. None)\<rparr>)\<rparr>)
                else (Inl (External ''cannot connect''), w)
            | Some d \<Rightarrow>
                (case faults d OpOpen of
                   Some err \<Rightarrow> (Inl err, w)
                 | None \<Rightarrow> (Inr (fam, dsn, 0), w))))"

definition gorm_statement ::
  "db_handle \<Rightarrow> db_op \<Rightarrow> (casbinRule list \<Rightarrow> error + casbinRule list) \<Rightarrow> world
     \<Rightarrow> error option \<times> world" where
  "gorm_statement h op f w =
     (case dbs w h of
        None \<Rightarrow> (Some (External ''database is gone''), w)
      | Some d \<Rightarrow>
          (case faults d op of
             Some err \<Rightarrow> (Some err, w)
           | None \<Rightarrow>
               (case table d of
                  None \<Rightarrow> (Some (External ''no such table: casbin_rule''), w)
                | Some t \<Rightarrow>
                    (case f t of
                       Inl err \<Rightarrow> (Some err, w)
                     | Inr t' \<Rightarrow>
                         (None, w\<lparr>dbs := (dbs w)(h \<mapsto> d\<lparr>table := Some t'\<rparr>)\<rparr>)))))"

text \<open>
  \<^verbatim>\<open>AutoMigrate\<close> creates the rule table when the database has none. When the table
  is there, the migrators of the postgres and mysql drivers see it and leave it. The
  SQLite dialector of this repository (\<^verbatim>\<open>sqliteDialector.Migrator\<close>) hands the work
  to the library's generic migrator, which looks for the table in a catalogue SQLite
  does not have, finds nothing, and issues \<^verbatim>\<open>CREATE TABLE\<close> again: on SQLite a
  migration of a database that has the table fails.
\<close>

definition gorm_AutoMigrate :: "db_handle \<Rightarrow> world \<Rightarrow> error option \<times> world" where
  "gorm_AutoMigrate h w =
     (case dbs w h of
        None \<Rightarrow> (Some (External ''database is gone''), w)
      | Some d \<Rightarrow>
          (case faults d OpMigrate of
             Some err \<Rightarrow> (Some err, w)
           | None \<Rightarrow>
               (case table d of
                  None \<Rightarrow> (None, w\<lparr>dbs := (dbs w)(h \<mapsto> d\<lparr>table := Some []\<rparr>)\<rparr>)
                | Some t \<Rightarrow>
                    if fst h = SQLite
                    then (Some (External ''table casbin_rule already exists''), w)
                    else (None, w))))"

definition gorm_Find :: "db_handle \<Rightarrow> world \<Rightarrow> error + casbinRule list" where
  "gorm_Find h w =
     (case dbs w h of
        None \<Rightarrow> Inl (External ''database is gone'')
      | Some d \<Rightarrow>
          (case faults d OpFind of
             Some err \<Rightarrow> Inl err
           | None \<Rightarrow>
               (case table d of
                  None \<Rightarrow> Inl (External ''no such table: casbin_rule'')
                | Some t \<Rightarrow> Inr t)))"

definition gorm_DeleteAll :: "db_handle \<Rightarrow> world \<Rightarrow> error option \<times> world" where
  "gorm_DeleteAll h w = gorm_statement h OpDelete (\<lambda>t. Inr []) w"

definition index_key :: "casbinRule \<Rightarrow> string list" where
  "index_key r = Ptype r # columns r"

definition gorm_Create :: "db_handle \<Rightarrow> casbinRule list \<Rightarrow> world \<Rightarrow> error option \<times> world" where
  "gorm_Create h rs w =
     gorm_statement h OpCreate
       (\<lambda>t. if distinct (map index_key (t @ rs)) then Inr (t @ rs)
            else Inl (External ''UNIQUE constraint failed'')) w"

definition where_matches :: "casbinRule \<Rightarrow> casbinRule \<Rightarrow> bool" where
  "where_matches pat row =
     list_all2 (\<lambda>c v. c = [] \<or> v = c) (index_key pat) (index_key row)"

definition gorm_DeleteWhere :: "db_handle \<Rightarrow> casbinRule \<Rightarrow> world \<Rightarrow> error option \<times> world" where
  "gorm_DeleteWhere h pat w =
     gorm_statement h OpDelete (\<lambda>t. Inr (filter (\<lambda>row. \<not> where_matches pat row) t)) w"

section \<open>The policy model and the libraries the plugin calls\<close>

text \<open>
  Modelled from the spec: the parsed policy model of the matching engine, a library
  outside the repository. The spec gives it a matcher expression, \<open>a boolean expression
  over request fields, policy fields, and role-relation predicates; evaluated per
  candidate policy row\<close>, and an effect expression, \<open>a boolean combinator over policy
  rows' effect field (allow/deny)\<close>. The matcher takes the role rows, the request and
  one policy row; \<open>eft_of\<close> reads the effect field of a row.
\<close>

datatype eft = Allow | Deny | Indeterminate

record perm_model =
  matcher :: "string list list \<Rightarrow> string list \<Rightarrow> string list \<Rightarrow> bool"
  eft_of :: "string list \<Rightarrow> eft"
  effect :: "eft list \<Rightarrow> bool"

text \<open>
  The two effect expressions of the policy language used below: \<open>some(where (p.eft ==
  allow))\<close>, the one every configuration in the repository uses, and
  \<open>!some(where (p.eft == deny))\<close>.
\<close>

definition some_allow :: "eft list \<Rightarrow> bool" where
  "some_allow ds = (Allow \<in> set ds)"

definition not_some_deny :: "eft list \<Rightarrow> bool" where
  "not_some_deny ds = (Deny \<notin> set ds)"

text \<open>
  The library functions whose results the plugin only passes on are parameters: the
  parser of the model text, the reader that splits one policy line into its tokens, the
  template engine, and the \<^verbatim>\<open>%q\<close> quoting of \<^verbatim>\<open>fmt.Sprintf\<close>.
\<close>

datatype template = Template string string

record libs =
  NewModelFromString :: "string \<Rightarrow> error + perm_model"
  csv_read :: "string \<Rightarrow> error + string list"
  template_Parse :: "string \<Rightarrow> string \<Rightarrow> error + template"
  template_Execute :: "template \<Rightarrow> (string \<Rightarrow> any option) \<Rightarrow> error + string"
  quote :: "string \<Rightarrow> string"

text \<open>The rule set of the engine: the policy rows and the role rows, each in order.\<close>

type_synonym rules = "string list list \<times> string list list"

text \<open>
  Modelled from the spec: \<^verbatim>\<open>persist.LoadPolicyLine\<close> of the engine. A line is
  \<open>ruleKindName, field0, field1, ...\<close>; the rule kind selects the policy rows or the role
  rows, and the fields are appended there. Empty lines and comment lines are skipped.
\<close>

definition LoadPolicyLine :: "libs \<Rightarrow> string \<Rightarrow> rules \<Rightarrow> error + rules" where
  "LoadPolicyLine L line m =
     (if line = [] \<or> has_prefix ''#'' line then Inr m
      else case csv_read L line of
             Inl err \<Rightarrow> Inl err
           | Inr tokens \<Rightarrow>
               (case tokens of
                  [] \<Rightarrow> Inr m
                | key # fs \<Rightarrow>
                    if key = ''p'' then Inr (fst m @ [fs], snd m)
                    else if key = ''g'' then Inr (fst m, snd m @ [fs])
                    else Inl (External ''unknown rule kind'')))"

section \<open>The three adapters\<close>

subsection \<open>The in-memory adapter\<close>

record inMemoryAdapter =
  policies :: "string list list"
  roleAssignments :: "string list list"

definition newInMemoryAdapter :: "string list list \<Rightarrow> string list list \<Rightarrow> inMemoryAdapter" where
  "newInMemoryAdapter ps rs = \<lparr>policies = ps, roleAssignments = rs\<rparr>"

text \<open>A loop over policy lines that stops at the first line the engine rejects.\<close>

fun load_lines :: "libs \<Rightarrow> string list \<Rightarrow> rules \<Rightarrow> error + rules" where
  "load_lines L [] m = Inr m"
| "load_lines L (line # rest) m =
     (case LoadPolicyLine L line m of
        Inl err \<Rightarrow> Inl err
      | Inr m' \<Rightarrow> load_lines L rest m')"

definition inMemory_LoadPolicy :: "libs \<Rightarrow> inMemoryAdapter \<Rightarrow> rules \<Rightarrow> error + rules" where
  "inMemory_LoadPolicy L a m =
     (case load_lines L (map (\<lambda>p. ''p, '' @ Join p '', '') (policies a)) m of
        Inl err \<Rightarrow> Inl err
      | Inr m' \<Rightarrow> load_lines L (map (\<lambda>g. ''g, '' @ Join g '', '') (roleAssignments a)) m')"

definition inMemory_SavePolicy :: "inMemoryAdapter \<Rightarrow> rules \<Rightarrow> error option \<times> inMemoryAdapter" where
  "inMemory_SavePolicy a m = (None, a\<lparr>policies := fst m, roleAssignments := snd m\<rparr>)"

definition inMemory_AddPolicy ::
  "inMemoryAdapter \<Rightarrow> string \<Rightarrow> string \<Rightarrow> string list \<Rightarrow> error option \<times> inMemoryAdapter" where
  "inMemory_AddPolicy a sec ptype rule =
     (if sec = ''g'' then (None, a\<lparr>roleAssignments := roleAssignments a @ [rule]\<rparr>)
      else (None, a\<lparr>policies := policies a @ [rule]\<rparr>))"

definition sliceEqual :: "string list \<Rightarrow> string list \<Rightarrow> bool" where
  "sliceEqual a b = (if length a \<noteq> length b then False else list_all2 (=) a b)"

fun removeRow :: "string list list \<Rightarrow> string list \<Rightarrow> string list list" where
  "removeRow [] target = []"
| "removeRow (row # rows) target =
     (if sliceEqual row target then rows else row # removeRow rows target)"

definition inMemory_RemovePolicy ::
  "inMemoryAdapter \<Rightarrow> string \<Rightarrow> string \<Rightarrow> string list \<Rightarrow> error option \<times> inMemoryAdapter" where
  "inMemory_RemovePolicy a sec ptype rule =
     (if sec = ''g'' then (None, a\<lparr>roleAssignments := removeRow (roleAssignments a) rule\<rparr>)
      else (None, a\<lparr>policies := removeRow (policies a) rule\<rparr>))"

subsection \<open>The relational adapter\<close>

record gormAdapter =
  db :: db_handle
  tableName :: string

definition newGORMAdapter ::
  "db_handle \<Rightarrow> string \<Rightarrow> world \<Rightarrow> (error + gormAdapter) \<times> world" where
  "newGORMAdapter h tn w =
     (let tn' = (if tn = [] then ''casbin_rule'' else tn) in
      case gorm_AutoMigrate h w of
        (Some err, w') \<Rightarrow> (Inl (GormMigrate err), w')
      | (None, w') \<Rightarrow> (Inr \<lparr>db = h, tableName = tn'\<rparr>, w'))"

text \<open>The relational adapter drops the result of loading a line, so a rejected row is skipped.\<close>

fun load_lines_unchecked :: "libs \<Rightarrow> string list \<Rightarrow> rules \<Rightarrow> rules" where
  "load_lines_unchecked L [] m = m"
| "load_lines_unchecked L (line # rest) m =
     load_lines_unchecked L rest
       (case LoadPolicyLine L line m of Inl err \<Rightarrow> m | Inr m' \<Rightarrow> m')"

definition gorm_LoadPolicy :: "libs \<Rightarrow> gormAdapter \<Rightarrow> rules \<Rightarrow> world \<Rightarrow> error + rules" where
  "gorm_LoadPolicy L a m w =
     (case gorm_Find (db a) w of
        Inl err \<Rightarrow> Inl err
      | Inr found \<Rightarrow> Inr (load_lines_unchecked L (map ruleToLine found) m))"

definition gorm_SavePolicy :: "gormAdapter \<Rightarrow> rules \<Rightarrow> world \<Rightarrow> error option \<times> world" where
  "gorm_SavePolicy a m w =
     (case gorm_DeleteAll (db a) w of
        (Some err, w') \<Rightarrow> (Some err, w')
      | (None, w') \<Rightarrow>
          (let rs = map (lineToRule ''p'') (fst m) @ map (lineToRule ''g'') (snd m) in
           if length rs > 0 then gorm_Create (db a) rs w' else (None, w')))"

definition gorm_AddPolicy ::
  "gormAdapter \<Rightarrow> string \<Rightarrow> string \<Rightarrow> string list \<Rightarrow> world \<Rightarrow> error option \<times> world" where
  "gorm_AddPolicy a sec ptype rule w = gorm_Create (db a) [lineToRule ptype rule] w"

definition gorm_RemovePolicy ::
  "gormAdapter \<Rightarrow> string \<Rightarrow> string \<Rightarrow> string list \<Rightarrow> world \<Rightarrow> error option \<times> world" where
  "gorm_RemovePolicy a sec ptype rule w = gorm_DeleteWhere (db a) (lineToRule ptype rule) w"

subsection \<open>The file adapter\<close>

text \<open>
  Modelled from the spec: the flat-file adapter of the engine, a library outside the
  repository. It is keyed by a path; each line of the file is \<open>ruleKindName, field0,
  field1, ...\<close>; a save rewrites the file from the rule set; it has no incremental
  writes.
\<close>

definition file_LoadPolicy :: "libs \<Rightarrow> string \<Rightarrow> rules \<Rightarrow> world \<Rightarrow> error + rules" where
  "file_LoadPolicy L path m w =
     (case files w path of
        None \<Rightarrow> Inl (External ''cannot open policy file'')
      | Some ls \<Rightarrow> load_lines L ls m)"

definition file_SavePolicy :: "string \<Rightarrow> rules \<Rightarrow> world \<Rightarrow> error option \<times> world" where
  "file_SavePolicy path m w =
     (None, w\<lparr>files := (files w)(path \<mapsto>
        map (\<lambda>p. Join (''p'' # p) '', '') (fst m) @ map (\<lambda>g. Join (''g'' # g) '', '') (snd m))\<rparr>)"

subsection \<open>Calls through the adapter interface\<close>

text \<open>
  \<^verbatim>\<open>persist.Adapter\<close> is an interface; the value behind it is one of the three adapters.
  Each call is written to the journal and then handed to the adapter. The in-memory
  adapter keeps its rows in the adapter value, the other two in the world.
\<close>

datatype persist_Adapter =
    InMemory inMemoryAdapter
  | FileAdapter string
  | Gorm gormAdapter

definition Adapter_LoadPolicy ::
  "libs \<Rightarrow> persist_Adapter \<Rightarrow> rules \<Rightarrow> world \<Rightarrow> (error + rules) \<times> world" where
  "Adapter_LoadPolicy L ad m w =
     (let w1 = record_call LoadPolicyCall w in
      case ad of
        InMemory a \<Rightarrow> (inMemory_LoadPolicy L a m, w1)
      | FileAdapter path \<Rightarrow> (file_LoadPolicy L path m w1, w1)
      | Gorm a \<Rightarrow> (gorm_LoadPolicy L a m w1, w1))"

definition Adapter_SavePolicy ::
  "persist_Adapter \<Rightarrow> rules \<Rightarrow> world \<Rightarrow> error option \<times> persist_Adapter \<times> world" where
  "Adapter_SavePolicy ad m w =
     (let w1 = record_call (SavePolicyCall (fst m) (snd m)) w in
      case ad of
        InMemory a \<Rightarrow> (case inMemory_SavePolicy a m of (err, a') \<Rightarrow> (err, InMemory a', w1))
      | FileAdapter path \<Rightarrow> (case file_SavePolicy path m w1 of (err, w2) \<Rightarrow> (err, ad, w2))
      | Gorm a \<Rightarrow> (case gorm_SavePolicy a m w1 of (err, w2) \<Rightarrow> (err, ad, w2)))"

definition Adapter_AddPolicy ::
  "persist_Adapter \<Rightarrow> string \<Rightarrow> string \<Rightarrow> string list \<Rightarrow> world
     \<Rightarrow> error option \<times> persist_Adapter \<times> world" where
  "Adapter_AddPolicy ad sec ptype rule w =
     (let w1 = record_call (AddPolicyCall sec ptype rule) w in
      case ad of
        InMemory a \<Rightarrow>
          (case inMemory_AddPolicy a sec ptype rule of (err, a') \<Rightarrow> (err, InMemory a', w1))
      | FileAdapter path \<Rightarrow> (Some NotImplemented, ad, w1)
      | Gorm a \<Rightarrow> (case gorm_AddPolicy a sec ptype rule w1 of (err, w2) \<Rightarrow> (err, ad, w2)))"

definition Adapter_RemovePolicy ::
  "persist_Adapter \<Rightarrow> string \<Rightarrow> string \<Rightarrow> string list \<Rightarrow> world
     \<Rightarrow> error option \<times> persist_Adapter \<times> world" where
  "Adapter_RemovePolicy ad sec ptype rule w =
     (let w1 = record_call (RemovePolicyCall sec ptype rule) w in
      case ad of
        InMemory a \<Rightarrow>
          (case inMemory_RemovePolicy a sec ptype rule of (err, a') \<Rightarrow> (err, InMemory a', w1))
      | FileAdapter path \<Rightarrow> (Some NotImplemented, ad, w1)
      | Gorm a \<Rightarrow> (case gorm_RemovePolicy a sec ptype rule w1 of (err, w2) \<Rightarrow> (err, ad, w2)))"

section \<open>The matching engine\<close>

text \<open>
  Modelled from the spec: the enforcer of the matching engine, a library outside the
  repository. It holds the parsed model, the current rule set and the adapter.
  \<open>Enforce\<close> \<open>evaluates the matcher expression against every policy row of the "p" kind
  plus role relations of the "g" kind, combining per-row matcher results through the
  effect expression\<close>: a row whose matcher holds contributes its effect field, any other
  row is indeterminate.
\<close>

record Enforcer =
  model :: perm_model
  p_rules :: "string list list"
  g_rules :: "string list list"
  adapter :: persist_Adapter

definition row_result :: "perm_model \<Rightarrow> string list list \<Rightarrow> string list \<Rightarrow> string list \<Rightarrow> eft" where
  "row_result md g req row = (if matcher md g req row then eft_of md row else Indeterminate)"

definition Enforcer_Enforce :: "Enforcer \<Rightarrow> string \<Rightarrow> string \<Rightarrow> string \<Rightarrow> bool \<times> error option" where
  "Enforcer_Enforce e sub obj act =
     (effect (model e) (map (row_result (model e) (g_rules e) [sub, obj, act]) (p_rules e)),
      None)"

text \<open>
  Modelled from the spec: \<^verbatim>\<open>casbin.NewEnforcer\<close> builds the engine over the model and
  the adapter and loads the existing rules from the adapter into an empty rule set; a
  failing load fails the construction.
\<close>

definition NewEnforcer ::
  "libs \<Rightarrow> perm_model \<Rightarrow> persist_Adapter \<Rightarrow> world \<Rightarrow> (error + Enforcer) \<times> world" where
  "NewEnforcer L md ad w =
     (case Adapter_LoadPolicy L ad ([], []) w of
        (Inl err, w') \<Rightarrow> (Inl err, w')
      | (Inr m, w') \<Rightarrow>
          (Inr \<lparr>model = md, p_rules = fst m, g_rules = snd m, adapter = ad\<rparr>, w'))"

text \<open>
  Modelled from the spec: the mutation primitives, \<open>each returning whether the in-memory
  set actually changed (false if the rule did not exist, for removal, or existed
  unchanged, for addition)\<close>. The engine hands every mutation it is going to apply to the
  adapter first (the incremental \<^verbatim>\<open>AddPolicy\<close> and \<^verbatim>\<open>RemovePolicy\<close> of the
  adapters in this repository exist for this call); an adapter error other than
  \<open>NotImplemented\<close> stops the mutation and is returned with \<open>false\<close>. \<open>sec\<close> is
  \<open>''p''\<close> for policy rows and \<open>''g''\<close> for role rows.
\<close>

definition rules_of :: "string \<Rightarrow> Enforcer \<Rightarrow> string list list" where
  "rules_of sec e = (if sec = ''g'' then g_rules e else p_rules e)"

definition put_rules :: "string \<Rightarrow> string list list \<Rightarrow> Enforcer \<Rightarrow> Enforcer" where
  "put_rules sec rs e = (if sec = ''g'' then e\<lparr>g_rules := rs\<rparr> else e\<lparr>p_rules := rs\<rparr>)"

definition Enforcer_addRule ::
  "string \<Rightarrow> Enforcer \<Rightarrow> string list \<Rightarrow> world \<Rightarrow> (bool \<times> error option) \<times> Enforcer \<times> world" where
  "Enforcer_addRule sec e rule w =
     (if rule \<in> set (rules_of sec e) then ((False, None), e, w)
      else case Adapter_AddPolicy (adapter e) sec sec rule w of
             (err, ad, w1) \<Rightarrow>
               if err \<noteq> None \<and> err \<noteq> Some NotImplemented
               then ((False, err), e\<lparr>adapter := ad\<rparr>, w1)
               else ((True, None),
                     put_rules sec (rules_of sec e @ [rule]) (e\<lparr>adapter := ad\<rparr>), w1))"

definition Enforcer_removeRule ::
  "string \<Rightarrow> Enforcer \<Rightarrow> string list \<Rightarrow> world \<Rightarrow> (bool \<times> error option) \<times> Enforcer \<times> world" where
  "Enforcer_removeRule sec e rule w =
     (if rule \<notin> set (rules_of sec e) then ((False, None), e, w)
      else case Adapter_RemovePolicy (adapter e) sec sec rule w of
             (err, ad, w1) \<Rightarrow>
               if err \<noteq> None \<and> err \<noteq> Some NotImplemented
               then ((False, err), e\<lparr>adapter := ad\<rparr>, w1)
               else ((True, None),
                     put_rules sec (remove1 rule (rules_of sec e)) (e\<lparr>adapter := ad\<rparr>), w1))"

definition Enforcer_AddPolicy ::
  "Enforcer \<Rightarrow> string list \<Rightarrow> world \<Rightarrow> (bool \<times> error option) \<times> Enforcer \<times> world" where
  "Enforcer_AddPolicy = Enforcer_addRule ''p''"

definition Enforcer_RemovePolicy ::
  "Enforcer \<Rightarrow> string list \<Rightarrow> world \<Rightarrow> (bool \<times> error option) \<times> Enforcer \<times> world" where
  "Enforcer_RemovePolicy = Enforcer_removeRule ''p''"

definition Enforcer_AddGroupingPolicy ::
  "Enforcer \<Rightarrow> string list \<Rightarrow> world \<Rightarrow> (bool \<times> error option) \<times> Enforcer \<times> world" where
  "Enforcer_AddGroupingPolicy = Enforcer_addRule ''g''"

definition Enforcer_RemoveGroupingPolicy ::
  "Enforcer \<Rightarrow> string list \<Rightarrow> world \<Rightarrow> (bool \<times> error option) \<times> Enforcer \<times> world" where
  "Enforcer_RemoveGroupingPolicy = Enforcer_removeRule ''g''"

text \<open>
  Modelled from the spec: \<open>SavePolicy\<close> hands the full current rule set to the adapter
  (\<open>full-replace semantics, not incremental\<close>).
\<close>

definition Enforcer_SavePolicy :: "Enforcer \<Rightarrow> world \<Rightarrow> error option \<times> Enforcer \<times> world" where
  "Enforcer_SavePolicy e w =
     (case Adapter_SavePolicy (adapter e) (p_rules e, g_rules e) w of
        (err, ad, w1) \<Rightarrow> (err, e\<lparr>adapter := ad\<rparr>, w1))"

section \<open>The enforcement module\<close>

record adapterConfig =
  Type :: string
  Path :: string
  Driver :: string
  DSN :: string
  TableName :: string

record watcherConfig =
  WatcherType :: string
  Interval :: int

record casbinConfig =
  Model :: string
  Policies :: "string list list"
  RoleAssignments :: "string list list"
  Adapter :: adapterConfig
  Watcher :: watcherConfig

text \<open>
  The module: its name, its configuration and the engine, \<open>None\<close> until \<open>Init\<close> has
  succeeded. The lock and the channels of the reload loop are not part of the model;
  every operation below is what the method does while it holds the lock.
\<close>

record CasbinModule =
  name :: string
  config :: casbinConfig
  enforcer :: "Enforcer option"

definition driver_family_of :: "string \<Rightarrow> driver_family option" where
  "driver_family_of d =
     (if d = ''postgres'' \<or> d = ''postgresql'' then Some Postgres
      else if d = ''mysql'' then Some MySQL
      else if d = ''sqlite3'' \<or> d = ''sqlite'' then Some SQLite
      else None)"

definition buildGORMAdapter ::
  "CasbinModule \<Rightarrow> world \<Rightarrow> (error + persist_Adapter) \<times> world" where
  "buildGORMAdapter m w =
     (if DSN (Adapter (config m)) = [] then (Inl (AdapterDsnRequired (name m)), w)
      else case driver_family_of (ToLower (Driver (Adapter (config m)))) of
             None \<Rightarrow> (Inl (UnsupportedGormDriver (name m) (Driver (Adapter (config m)))), w)
           | Some fam \<Rightarrow>
               (case gorm_Open fam (DSN (Adapter (config m))) w of
                  (Inl err, w1) \<Rightarrow> (Inl (OpenGormDb (name m) err), w1)
                | (Inr h, w1) \<Rightarrow>
                    (case newGORMAdapter h (TableName (Adapter (config m))) w1 of
                       (Inl err, w2) \<Rightarrow> (Inl (CreateGormAdapter (name m) err), w2)
                     | (Inr a, w2) \<Rightarrow> (Inr (Gorm a), w2))))"

definition buildAdapter ::
  "CasbinModule \<Rightarrow> world \<Rightarrow> (error + persist_Adapter) \<times> world" where
  "buildAdapter m w =
     (let t = ToLower (Type (Adapter (config m))) in
      if t = [] \<or> t = ''memory''
        then (Inr (InMemory (newInMemoryAdapter (Policies (config m))
                               (RoleAssignments (config m)))), w)
      else if t = ''file''
        then (if Path (Adapter (config m)) = [] then (Inl (AdapterPathRequired (name m)), w)
              else (Inr (FileAdapter (Path (Adapter (config m)))), w))
      else if t = ''gorm'' then buildGORMAdapter m w
      else (Inl (UnknownAdapterType (name m) (Type (Adapter (config m)))), w))"

definition Init :: "libs \<Rightarrow> CasbinModule \<Rightarrow> world \<Rightarrow> error option \<times> CasbinModule \<times> world" where
  "Init L m w =
     (case NewModelFromString L (Model (config m)) of
        Inl err \<Rightarrow> (Some (ParseModel (name m) err), m, w)
      | Inr md \<Rightarrow>
          (case buildAdapter m w of
             (Inl err, w1) \<Rightarrow> (Some (BuildAdapter (name m) err), m, w1)
           | (Inr ad, w1) \<Rightarrow>
               (case NewEnforcer L md ad w1 of
                  (Inl err, w') \<Rightarrow> (Some (CreateEnforcer (name m) err), m, w')
                | (Inr e, w') \<Rightarrow> (None, m\<lparr>enforcer := Some e\<rparr>, w'))))"

definition Enforce :: "CasbinModule \<Rightarrow> string \<Rightarrow> string \<Rightarrow> string \<Rightarrow> bool \<times> error option" where
  "Enforce m sub obj act =
     (case enforcer m of
        None \<Rightarrow> (False, Some (EnforcerNotInitialized (name m)))
      | Some e \<Rightarrow> Enforcer_Enforce e sub obj act)"

text \<open>
  The four mutations. Each one refuses an uninitialised module, applies the engine's
  mutation, returns its error if there is one, saves the whole rule set when the
  mutation changed something, and returns the save's error in place of the success.
\<close>

definition AddPolicy ::
  "CasbinModule \<Rightarrow> string list \<Rightarrow> world \<Rightarrow> (bool \<times> error option) \<times> CasbinModule \<times> world" where
  "AddPolicy m rule w =
     (case enforcer m of
        None \<Rightarrow> ((False, Some (EnforcerNotInitialized (name m))), m, w)
      | Some e \<Rightarrow>
          (case Enforcer_AddPolicy e rule w of
             ((ok, Some err), e1, w1) \<Rightarrow> ((False, Some err), m\<lparr>enforcer := Some e1\<rparr>, w1)
           | ((ok, None), e1, w1) \<Rightarrow>
               if ok then
                 (case Enforcer_SavePolicy e1 w1 of
                    (Some err, e2, w2) \<Rightarrow> ((False, Some err), m\<lparr>enforcer := Some e2\<rparr>, w2)
                  | (None, e2, w2) \<Rightarrow> ((ok, None), m\<lparr>enforcer := Some e2\<rparr>, w2))
               else ((ok, None), m\<lparr>enforcer := Some e1\<rparr>, w1)))"

definition RemovePolicy ::
  "CasbinModule \<Rightarrow> string list \<Rightarrow> world \<Rightarrow> (bool \<times> error option) \<times> CasbinModule \<times> world" where
  "RemovePolicy m rule w =
     (case enforcer m of
        None \<Rightarrow> ((False, Some (EnforcerNotInitialized (name m))), m, w)
      | Some e \<Rightarrow>
          (case Enforcer_RemovePolicy e rule w of
             ((ok, Some err), e1, w1) \<Rightarrow> ((False, Some err), m\<lparr>enforcer := Some e1\<rparr>, w1)
           | ((ok, None), e1, w1) \<Rightarrow>
               if ok then
                 (case Enforcer_SavePolicy e1 w1 of
                    (Some err, e2, w2) \<Rightarrow> ((False, Some err), m\<lparr>enforcer := Some e2\<rparr>, w2)
                  | (None, e2, w2) \<Rightarrow> ((ok, None), m\<lparr>enforcer := Some e2\<rparr>, w2))
               else ((ok, None), m\<lparr>enforcer := Some e1\<rparr>, w1)))"

definition AddGroupingPolicy ::
  "CasbinModule \<Rightarrow> string list \<Rightarrow> world \<Rightarrow> (bool \<times> error option) \<times> CasbinModule \<times> world" where
  "AddGroupingPolicy m rule w =
     (case enforcer m of
        None \<Rightarrow> ((False, Some (EnforcerNotInitialized (name m))), m, w)
      | Some e \<Rightarrow>
          (case Enforcer_AddGroupingPolicy e rule w of
             ((ok, Some err), e1, w1) \<Rightarrow> ((False, Some err), m\<lparr>enforcer := Some e1\<rparr>, w1)
           | ((ok, None), e1, w1) \<Rightarrow>
               if ok then
                 (case Enforcer_SavePolicy e1 w1 of
                    (Some err, e2, w2) \<Rightarrow> ((False, Some err), m\<lparr>enforcer := Some e2\<rparr>, w2)
                  | (None, e2, w2) \<Rightarrow> ((ok, None), m\<lparr>enforcer := Some e2\<rparr>, w2))
               else ((ok, None), m\<lparr>enforcer := Some e1\<rparr>, w1)))"

definition RemoveGroupingPolicy ::
  "CasbinModule \<Rightarrow> string list \<Rightarrow> world \<Rightarrow> (bool \<times> error option) \<times> CasbinModule \<times> world" where
  "RemoveGroupingPolicy m rule w =
     (case enforcer m of
        None \<Rightarrow> ((False, Some (EnforcerNotInitialized (name m))), m, w)
      | Some e \<Rightarrow>
          (case Enforcer_RemoveGroupingPolicy e rule w of
             ((ok, Some err), e1, w1) \<Rightarrow> ((False, Some err), m\<lparr>enforcer := Some e1\<rparr>, w1)
           | ((ok, None), e1, w1) \<Rightarrow>
               if ok then
                 (case Enforcer_SavePolicy e1 w1 of
                    (Some err, e2, w2) \<Rightarrow> ((False, Some err), m\<lparr>enforcer := Some e2\<rparr>, w2)
                  | (None, e2, w2) \<Rightarrow> ((ok, None), m\<lparr>enforcer := Some e2\<rparr>, w2))
               else ((ok, None), m\<lparr>enforcer := Some e1\<rparr>, w1)))"

section \<open>What a mutation owes the store\<close>

text \<open>
  What a store holds behind an adapter: the two row lists of the in-memory adapter, the
  lines of the file, or the rows of the table; and the form in which an adapter stores a
  rule set: the rows as they are, one line per rule, or one table row per rule, which has
  room for the first six fields of the rule only.
\<close>

datatype store_content =
    MemoryRows "string list list" "string list list"
  | FileLines "string list option"
  | TableRows "casbinRule list option"

definition store_content :: "persist_Adapter \<Rightarrow> world \<Rightarrow> store_content" where
  "store_content ad w =
     (case ad of
        InMemory a \<Rightarrow> MemoryRows (policies a) (roleAssignments a)
      | FileAdapter path \<Rightarrow> FileLines (files w path)
      | Gorm a \<Rightarrow>
          TableRows (case dbs w (db a) of None \<Rightarrow> None | Some d \<Rightarrow> table d))"

definition stored_form :: "persist_Adapter \<Rightarrow> rules \<Rightarrow> store_content" where
  "stored_form ad m =
     (case ad of
        InMemory a \<Rightarrow> MemoryRows (fst m) (snd m)
      | FileAdapter path \<Rightarrow>
          FileLines (Some (map (\<lambda>p. Join (''p'' # p) '', '') (fst m)
                           @ map (\<lambda>g. Join (''g'' # g) '', '') (snd m)))
      | Gorm a \<Rightarrow>
          TableRows (Some (map (lineToRule ''p'') (fst m) @ map (lineToRule ''g'') (snd m))))"

text \<open>
  The rule set an engine holds, and the relation between a mutation of the module and
  the engine mutation inside it. \<open>w\<close> is the world before the call, \<open>engine_result\<close>
  is what the engine's mutation returns there and \<open>module_result\<close> what the module's
  method returns. When the engine reports a change (it returns \<open>true\<close> and no
  error), the method has made exactly one more save, of the whole rule set as it is
  after the change; if the save failed the method answers \<open>false\<close> with the save's
  error, and if it succeeded the method answers \<open>true\<close> and the store holds the rule
  set in the adapter's stored form. When the engine reports no change, the method has
  made no save and answers \<open>false\<close> with the engine's error, if any.
\<close>

definition rule_set :: "Enforcer \<Rightarrow> rules" where
  "rule_set e = (p_rules e, g_rules e)"

definition mutation_persists ::
  "world \<Rightarrow> (bool \<times> error option) \<times> Enforcer \<times> world
     \<Rightarrow> (bool \<times> error option) \<times> CasbinModule \<times> world \<Rightarrow> bool" where
  "mutation_persists w engine_result module_result =
     (case engine_result of
        ((flag, merr), e1, w1) \<Rightarrow>
          (case module_result of
             ((ok, err), m', w') \<Rightarrow>
               (if flag \<and> merr = None
                then save_calls w' = save_calls w @ [SavePolicyCall (p_rules e1) (g_rules e1)]
                     \<and> (case fst (Enforcer_SavePolicy e1 w1) of
                          Some serr \<Rightarrow> \<not> ok \<and> err = Some serr
                        | None \<Rightarrow>
                            ok \<and> err = None
                            \<and> (case enforcer m' of
                                  None \<Rightarrow> False
                                | Some e2 \<Rightarrow>
                                    rule_set e2 = rule_set e1
                                    \<and> store_content (adapter e2) w'
                                        = stored_form (adapter e2) (rule_set e1)))
                else save_calls w' = save_calls w \<and> \<not> ok \<and> err = merr)))"

section \<open>The decision steps\<close>

text \<open>
  A step receives the trigger data, the outputs of the steps before it (one map per
  step; the list gives them in the order in which the \<^verbatim>\<open>range\<close> loop meets them) and
  the current context. Its result is an output map and the flag that stops the
  pipeline.
\<close>

type_synonym context_map = "string \<Rightarrow> any option"

record StepResult =
  Output :: context_map
  StopPipeline :: bool

text \<open>The type assertion \<^verbatim>\<open>.(string)\<close> on a map lookup.\<close>

definition string_of :: "any option \<Rightarrow> string option" where
  "string_of v = (case v of Some (AString s) \<Rightarrow> Some s | _ \<Rightarrow> None)"

definition isTemplate :: "string \<Rightarrow> bool" where
  "isTemplate s = (Contains s ''{{'' \<and> Contains s ''}}'')"

fun toStringSlice_loop :: "nat \<Rightarrow> any list \<Rightarrow> error + string list" where
  "toStringSlice_loop i [] = Inr []"
| "toStringSlice_loop i (item # rest) =
     (case item of
        AString str \<Rightarrow>
          (case toStringSlice_loop (Suc i) rest of
             Inl err \<Rightarrow> Inl err
           | Inr s \<Rightarrow> Inr (str # s))
      | _ \<Rightarrow> Inl (ElementNotString i item))"

definition toStringSlice :: "any \<Rightarrow> error + string list" where
  "toStringSlice v =
     (case v of
        ASlice t \<Rightarrow> toStringSlice_loop 0 t
      | AStrings t \<Rightarrow> Inr t
      | _ \<Rightarrow> Inl (NotASlice v))"

subsection \<open>The check step\<close>

text \<open>
  The step keeps a reference to the registry of modules; the model passes the registry
  as it is when the step runs.
\<close>

record authzCheckStep =
  step_name :: string
  moduleName :: string
  subjectKey :: string
  object :: string
  action :: string
  objectTmpl :: "template option"
  actionTmpl :: "template option"

definition config_string_or :: "context_map \<Rightarrow> string \<Rightarrow> string \<Rightarrow> string" where
  "config_string_or cfg key dflt =
     (case string_of (cfg key) of
        Some v \<Rightarrow> if v \<noteq> [] then v else dflt
      | None \<Rightarrow> dflt)"

definition newAuthzCheckStep :: "libs \<Rightarrow> string \<Rightarrow> context_map \<Rightarrow> error + authzCheckStep" where
  "newAuthzCheckStep L nm cfg =
     (let s = \<lparr>step_name = nm,
               moduleName = config_string_or cfg ''module'' ''authz'',
               subjectKey = config_string_or cfg ''subject_key'' ''auth_user_id'',
               object = [], action = [], objectTmpl = None, actionTmpl = None\<rparr>;
          obj = (case string_of (cfg ''object'') of Some v \<Rightarrow> v | None \<Rightarrow> []);
          act = (case string_of (cfg ''action'') of Some v \<Rightarrow> v | None \<Rightarrow> [])
      in if obj = [] then Inl (ObjectRequired nm)
         else if act = [] then Inl (ActionRequired nm)
         else
           (case (if isTemplate obj
                  then (case template_Parse L ''object'' obj of
                          Inl err \<Rightarrow> Inl (ParseObjectTemplate nm err)
                        | Inr t \<Rightarrow> Inr (s\<lparr>objectTmpl := Some t\<rparr>))
                  else Inr (s\<lparr>object := obj\<rparr>)) of
              Inl err \<Rightarrow> Inl err
            | Inr s1 \<Rightarrow>
                (if isTemplate act
                 then (case template_Parse L ''action'' act of
                         Inl err \<Rightarrow> Inl (ParseActionTemplate nm err)
                       | Inr t \<Rightarrow> Inr (s1\<lparr>actionTmpl := Some t\<rparr>))
                 else Inr (s1\<lparr>action := act\<rparr>))))"

definition forbiddenResult :: "libs \<Rightarrow> string \<Rightarrow> StepResult" where
  "forbiddenResult L msg =
     \<lparr>Output = map_of
        [(''response_status'', AInt 403),
         (''response_body'', AString (''{\"error\":'' @ quote L msg @ ''}'')),
         (''response_headers'', AMap [(''Content-Type'', AString ''application/json'')]),
         (''authz_allowed'', ABool False)],
      StopPipeline = True\<rparr>"

definition holds_subject :: "context_map \<Rightarrow> string \<Rightarrow> bool" where
  "holds_subject m key = (case string_of (m key) of Some v \<Rightarrow> v \<noteq> [] | None \<Rightarrow> False)"

fun resolveSubject_outputs :: "string \<Rightarrow> context_map list \<Rightarrow> string option" where
  "resolveSubject_outputs key [] = None"
| "resolveSubject_outputs key (out # rest) =
     (case string_of (out key) of
        Some v \<Rightarrow> if v \<noteq> [] then Some v else resolveSubject_outputs key rest
      | None \<Rightarrow> resolveSubject_outputs key rest)"

definition resolveSubject ::
  "string \<Rightarrow> (string \<times> context_map) list \<Rightarrow> context_map \<Rightarrow> context_map \<Rightarrow> string" where
  "resolveSubject key stepOutputs current triggerData =
     (case resolveSubject_outputs key (map snd stepOutputs) of
        Some v \<Rightarrow> v
      | None \<Rightarrow>
          (case string_of (current key) of
             Some v \<Rightarrow>
               if v \<noteq> [] then v
               else (case string_of (triggerData key) of
                       Some u \<Rightarrow> if u \<noteq> [] then u else []
                     | None \<Rightarrow> [])
           | None \<Rightarrow>
               (case string_of (triggerData key) of
                  Some u \<Rightarrow> if u \<noteq> [] then u else []
                | None \<Rightarrow> [])))"

definition buildTemplateData ::
  "context_map \<Rightarrow> (string \<times> context_map) list \<Rightarrow> context_map \<Rightarrow> context_map" where
  "buildTemplateData triggerData stepOutputs current =
     foldl (++) triggerData (map snd stepOutputs) ++ current"

definition resolve :: "libs \<Rightarrow> string \<Rightarrow> template option \<Rightarrow> context_map \<Rightarrow> error + string" where
  "resolve L staticVal tmpl data =
     (case tmpl of None \<Rightarrow> Inr staticVal | Some t \<Rightarrow> template_Execute L t data)"

text \<open>
  \<open>Execute\<close> returns the step's result or error, and beside it the calls of the module's
  \<open>Enforce\<close> that the execution made: the module name and the three query fields.
\<close>

type_synonym enforce_call = "string \<times> string \<times> string \<times> string"

definition authzCheck_Execute ::
  "libs \<Rightarrow> (string \<Rightarrow> CasbinModule option) \<Rightarrow> authzCheckStep
     \<Rightarrow> context_map \<Rightarrow> (string \<times> context_map) list \<Rightarrow> context_map
     \<Rightarrow> (error + StepResult) \<times> enforce_call list" where
  "authzCheck_Execute L registry s triggerData stepOutputs current =
     (let subject = resolveSubject (subjectKey s) stepOutputs current triggerData in
      if subject = []
      then (Inr (forbiddenResult L
                  ''missing authentication subject; ensure step.auth_required runs first''), [])
      else
        (let tmplData = buildTemplateData triggerData stepOutputs current in
         case resolve L (object s) (objectTmpl s) tmplData of
           Inl err \<Rightarrow> (Inl (ResolveObject (step_name s) err), [])
         | Inr obj \<Rightarrow>
             (case resolve L (action s) (actionTmpl s) tmplData of
                Inl err \<Rightarrow> (Inl (ResolveAction (step_name s) err), [])
              | Inr act \<Rightarrow>
                  (case registry (moduleName s) of
                     None \<Rightarrow> (Inl (ModuleNotFound (step_name s) (moduleName s)), [])
                   | Some md \<Rightarrow>
                       (case Enforce md subject obj act of
                          (allowed, Some err) \<Rightarrow>
                            (Inl (EnforceFailed (step_name s) err),
                             [(moduleName s, subject, obj, act)])
                        | (allowed, None) \<Rightarrow>
                            if \<not> allowed
                            then (Inr (forbiddenResult L
                                        (''forbidden: '' @ subject @ '' is not permitted to ''
                                           @ act @ '' '' @ obj)),
                                  [(moduleName s, subject, obj, act)])
                            else (Inr \<lparr>Output = map_of
                                         [(''authz_subject'', AString subject),
                                          (''authz_object'', AString obj),
                                          (''authz_action'', AString act),
                                          (''authz_allowed'', ABool True)],
                                       StopPipeline = False\<rparr>,
                                  [(moduleName s, subject, obj, act)]))))))"

subsection \<open>The role assignment step\<close>

record roleAssignment =
  static :: "string list"
  tmpls :: "template option list"

record authzRoleAssignStep =
  ra_name :: string
  ra_moduleName :: string
  ra_action :: string
  assignments :: "roleAssignment list"

text \<open>\<^verbatim>\<open>%d\<close> of a slice index.\<close>

function decimal :: "nat \<Rightarrow> string" where
  "decimal n =
     (if n < 10 then [''0123456789'' ! n]
      else decimal (n div 10) @ [''0123456789'' ! (n mod 10)])"
  by pat_completeness auto
termination
  by (relation "measure id") auto

declare decimal.simps [simp del]

fun compileRuleTemplates_loop ::
  "libs \<Rightarrow> nat \<Rightarrow> string list \<Rightarrow> string list \<times> template option list" where
  "compileRuleTemplates_loop L i [] = ([], [])"
| "compileRuleTemplates_loop L i (elem # rest) =
     (let (st, tm) = compileRuleTemplates_loop L (Suc i) rest in
      if isTemplate elem
      then (case template_Parse L (''rule['' @ decimal i @ '']'') elem of
              Inr t \<Rightarrow> ([] # st, Some t # tm)
            | Inl err \<Rightarrow> (elem # st, None # tm))
      else (elem # st, None # tm))"

definition compileRuleTemplates :: "libs \<Rightarrow> string list \<Rightarrow> string list \<times> template option list" where
  "compileRuleTemplates L rule = compileRuleTemplates_loop L 0 rule"

fun newAuthzRoleAssignStep_loop ::
  "libs \<Rightarrow> string \<Rightarrow> nat \<Rightarrow> any list \<Rightarrow> authzRoleAssignStep \<Rightarrow> error + authzRoleAssignStep" where
  "newAuthzRoleAssignStep_loop L nm i [] s = Inr s"
| "newAuthzRoleAssignStep_loop L nm i (a # rest) s =
     (case toStringSlice a of
        Inl err \<Rightarrow> Inl (AssignmentInvalid nm i err)
      | Inr row \<Rightarrow>
          if length row < 2 then Inl (AssignmentTooShort nm i row)
          else (case compileRuleTemplates L row of
                  (st, tm) \<Rightarrow>
                    newAuthzRoleAssignStep_loop L nm (Suc i) rest
                      (s\<lparr>assignments := assignments s @ [\<lparr>static = st, tmpls = tm\<rparr>]\<rparr>)))"

definition newAuthzRoleAssignStep ::
  "libs \<Rightarrow> string \<Rightarrow> context_map \<Rightarrow> error + authzRoleAssignStep" where
  "newAuthzRoleAssignStep L nm cfg =
     (let s = \<lparr>ra_name = nm,
               ra_moduleName = config_string_or cfg ''module'' ''authz'',
               ra_action = ''add'',
               assignments = []\<rparr>
      in case (case string_of (cfg ''action'') of
                 Some v \<Rightarrow>
                   if v \<noteq> [] then
                     (if v = ''add'' \<or> v = ''remove'' then Inr (s\<lparr>ra_action := v\<rparr>)
                      else Inl (RoleActionInvalid nm v))
                   else Inr s
               | None \<Rightarrow> Inr s) of
           Inl err \<Rightarrow> Inl err
         | Inr s1 \<Rightarrow>
             (case cfg ''assignments'' of
                Some (ASlice rawAssignments) \<Rightarrow>
                  if length rawAssignments = 0 then Inl (AssignmentsRequired nm)
                  else newAuthzRoleAssignStep_loop L nm 0 rawAssignments s1
              | _ \<Rightarrow> Inl (AssignmentsRequired nm)))"

subsection \<open>What the role assignment step accepts\<close>

text \<open>
  The two conditions on the configuration of a role assignment step, stated on the
  configuration alone. The action is accepted when it is absent, not a string, empty,
  \<open>add\<close> or \<open>remove\<close>. The assignments are accepted when they are a non-empty slice
  whose elements are all slices of strings with at least two fields.
\<close>

definition action_accepted :: "context_map \<Rightarrow> bool" where
  "action_accepted cfg =
     (case string_of (cfg ''action'') of
        Some v \<Rightarrow> v = [] \<or> v = ''add'' \<or> v = ''remove''
      | None \<Rightarrow> True)"

definition pair_accepted :: "any \<Rightarrow> bool" where
  "pair_accepted a = (case toStringSlice a of Inr row \<Rightarrow> 2 \<le> length row | Inl err \<Rightarrow> False)"

definition assignments_accepted :: "context_map \<Rightarrow> bool" where
  "assignments_accepted cfg =
     (case cfg ''assignments'' of
        Some (ASlice xs) \<Rightarrow> xs \<noteq> [] \<and> list_all pair_accepted xs
      | _ \<Rightarrow> False)"

section \<open>A sample configuration\<close>

text \<open>
  The concrete inputs of the examples below: the model of the repository's README and
  tests, whose matcher is \<open>g(r.sub, p.sub) && r.obj == p.obj && r.act == p.act\<close> and
  whose effect is \<open>some(where (p.eft == allow))\<close>, and the same model with the effect
  \<open>!some(where (p.eft == deny))\<close>. The role predicate \<open>g\<close> follows the role rows from
  the member to the role, through at most as many rows as there are.
\<close>

fun has_link :: "nat \<Rightarrow> string list list \<Rightarrow> string \<Rightarrow> string \<Rightarrow> bool" where
  "has_link 0 g a b = (a = b)"
| "has_link (Suc n) g a b =
     (a = b \<or> list_ex (\<lambda>row. case row of u # r # rest \<Rightarrow> u = a \<and> has_link n g r b | _ \<Rightarrow> False) g)"

definition rbac_matcher :: "string list list \<Rightarrow> string list \<Rightarrow> string list \<Rightarrow> bool" where
  "rbac_matcher g req row =
     (case req of
        [rsub, robj, ract] \<Rightarrow>
          (case row of
             psub # pobj # pact # rest \<Rightarrow>
               has_link (length g) g rsub psub \<and> robj = pobj \<and> ract = pact
           | _ \<Rightarrow> False)
      | _ \<Rightarrow> False)"

definition rbac_model :: perm_model where
  "rbac_model = \<lparr>matcher = rbac_matcher, eft_of = (\<lambda>row. Allow), effect = some_allow\<rparr>"

definition deny_override_model :: perm_model where
  "deny_override_model =
     \<lparr>matcher = rbac_matcher, eft_of = (\<lambda>row. Allow), effect = not_some_deny\<rparr>"

definition rbac_text :: string where
  "rbac_text = ''e = some(where (p.eft == allow))''"

definition deny_override_text :: string where
  "deny_override_text = ''e = !some(where (p.eft == deny))''"

text \<open>The tokens of a policy line without quoted fields: split at commas, leading spaces dropped.\<close>

fun split_commas :: "string \<Rightarrow> string \<Rightarrow> string list" where
  "split_commas acc [] = [acc]"
| "split_commas acc (c # cs) =
     (if c = CHR '','' then acc # split_commas [] cs else split_commas (acc @ [c]) cs)"

definition csv_fields :: "string \<Rightarrow> string list" where
  "csv_fields line = map (dropWhile (\<lambda>c. c = CHR '' '')) (split_commas [] line)"

definition sample_libs :: libs where
  "sample_libs =
     \<lparr>NewModelFromString =
        (\<lambda>text. if text = rbac_text then Inr rbac_model
                else if text = deny_override_text then Inr deny_override_model
                else Inl (External ''invalid model text'')),
      csv_read = (\<lambda>line. Inr (csv_fields line)),
      template_Parse = (\<lambda>nm text. Inr (Template nm text)),
      template_Execute = (\<lambda>t data. case t of Template nm text \<Rightarrow> Inr text),
      quote = (\<lambda>s. ''\"'' @ s @ ''\"'')\<rparr>"

definition no_adapter :: adapterConfig where
  "no_adapter = \<lparr>Type = [], Path = [], Driver = [], DSN = [], TableName = []\<rparr>"

definition no_watcher :: watcherConfig where
  "no_watcher = \<lparr>WatcherType = [], Interval = 0\<rparr>"

definition empty_world :: world where
  "empty_world = \<lparr>dbs = (\<lambda>h. None), opened = 0, files = (\<lambda>p. None), journal = []\<rparr>"

text \<open>
  A module as \<^verbatim>\<open>newCasbinModule\<close> leaves it, with one policy row and one role row in
  its configuration, and the same module with the other effect expression.
\<close>

definition sample_module :: CasbinModule where
  "sample_module =
     \<lparr>name = ''authz'',
      config = \<lparr>Model = rbac_text,
                Policies = [[''admin'', ''/api'', ''GET'']],
                RoleAssignments = [[''alice'', ''admin'']],
                Adapter = no_adapter, Watcher = no_watcher\<rparr>,
      enforcer = None\<rparr>"

definition deny_override_module :: CasbinModule where
  "deny_override_module =
     \<lparr>name = ''authz'',
      config = \<lparr>Model = deny_override_text,
                Policies = [[''admin'', ''/api'', ''GET'']],
                RoleAssignments = [[''alice'', ''admin'']],
                Adapter = no_adapter, Watcher = no_watcher\<rparr>,
      enforcer = None\<rparr>"

text \<open>
  A module on the relational adapter with the driver name \<open>sqlite\<close>, a world in which
  its database exists and has no rule table yet, and the same world once the table has
  been created.
\<close>

definition sqlite_module :: CasbinModule where
  "sqlite_module =
     \<lparr>name = ''authz'',
      config = \<lparr>Model = rbac_text, Policies = [], RoleAssignments = [],
                Adapter = \<lparr>Type = ''gorm'', Path = [], Driver = ''sqlite'',
                            DSN = ''authz.db'', TableName = []\<rparr>,
                Watcher = no_watcher\<rparr>,
      enforcer = None\<rparr>"

definition sqlite_world :: world where
  "sqlite_world =
     \<lparr>dbs = (\<lambda>h. if h = (SQLite, ''authz.db'', 0)
                  then Some \<lparr>table = None, faults = (\<lambda>op. None)\<rparr>
                  else None),
      opened = 0, files = (\<lambda>p. None), journal = []\<rparr>"

definition sqlite_world_migrated :: world where
  "sqlite_world_migrated =
     \<lparr>dbs = (\<lambda>h. if h = (SQLite, ''authz.db'', 0)
                  then Some \<lparr>table = Some [], faults = (\<lambda>op. None)\<rparr>
                  else None),
      opened = 0, files = (\<lambda>p. None), journal = []\<rparr>"

text \<open>The engines that \<open>Init\<close> builds for these modules, and the modules holding them.\<close>

definition sample_engine :: Enforcer where
  "sample_engine =
     \<lparr>model = rbac_model,
      p_rules = [[''admin'', ''/api'', ''GET'']],
      g_rules = [[''alice'', ''admin'']],
      adapter = InMemory \<lparr>policies = [[''admin'', ''/api'', ''GET'']],
                          roleAssignments = [[''alice'', ''admin'']]\<rparr>\<rparr>"

definition sample_ready :: CasbinModule where
  "sample_ready = sample_module\<lparr>enforcer := Some sample_engine\<rparr>"

definition deny_override_ready :: CasbinModule where
  "deny_override_ready =
     deny_override_module\<lparr>enforcer := Some (sample_engine\<lparr>model := deny_override_model\<rparr>)\<rparr>"

definition sqlite_engine :: Enforcer where
  "sqlite_engine =
     \<lparr>model = rbac_model, p_rules = [], g_rules = [],
      adapter = Gorm \<lparr>db = (SQLite, ''authz.db'', 0), tableName = ''casbin_rule''\<rparr>\<rparr>"

definition sqlite_ready :: CasbinModule where
  "sqlite_ready = sqlite_module\<lparr>enforcer := Some sqlite_engine\<rparr>"

text \<open>A world whose database refuses every delete statement.\<close>

definition failing_world :: world where
  "failing_world =
     \<lparr>dbs = (\<lambda>h. if h = (SQLite, ''authz.db'', 0)
                  then Some \<lparr>table = Some [],
                             faults = (\<lambda>op. if op = OpDelete then Some (External ''disk I/O error'')
                                             else None)\<rparr>
                  else None),
      opened = 0, files = (\<lambda>p. None), journal = []\<rparr>"

text \<open>A policy row of seven fields, one more than a table row has columns for.\<close>

definition seven_row :: "string list" where
  "seven_row = [''a'', ''b'', ''c'', ''d'', ''e'', ''f'', ''g'']"

definition seven_added :: "(bool \<times> error option) \<times> CasbinModule \<times> world" where
  "seven_added = AddPolicy sqlite_ready seven_row sqlite_world_migrated"

text \<open>
  Two runs on the sample module: adding and removing alice's own row for a query that
  the role row of alice and the policy row of admin already allow, and adding and
  removing a row of bob for a query that nothing else allows.
\<close>

definition alice_row :: "string list" where
  "alice_row = [''alice'', ''/api'', ''GET'']"

definition alice_added :: "(bool \<times> error option) \<times> CasbinModule \<times> world" where
  "alice_added = AddPolicy sample_ready alice_row empty_world"

definition alice_removed :: "(bool \<times> error option) \<times> CasbinModule \<times> world" where
  "alice_removed = RemovePolicy (fst (snd alice_added)) alice_row (snd (snd alice_added))"

definition bob_row :: "string list" where
  "bob_row = [''bob'', ''/files'', ''GET'']"

definition bob_added :: "(bool \<times> error option) \<times> CasbinModule \<times> world" where
  "bob_added = AddPolicy sample_ready bob_row empty_world"

definition bob_removed :: "(bool \<times> error option) \<times> CasbinModule \<times> world" where
  "bob_removed = RemovePolicy (fst (snd bob_added)) bob_row (snd (snd bob_added))"

text \<open>A module on the relational adapter with a driver name the adapter does not know.\<close>

definition oracle_module :: CasbinModule where
  "oracle_module =
     \<lparr>name = ''authz'',
      config = \<lparr>Model = rbac_text, Policies = [], RoleAssignments = [],
                Adapter = \<lparr>Type = ''gorm'', Path = [], Driver = ''oracle'',
                            DSN = ''whatever'', TableName = []\<rparr>,
                Watcher = no_watcher\<rparr>,
      enforcer = None\<rparr>"

text \<open>
  A registry holding the initialised sample module, a check step for deleting \<open>/api\<close>
  and one for reading it, the second configured with the audit flag, and a context in
  which the authenticated user is alice.
\<close>

definition sample_registry :: "string \<Rightarrow> CasbinModule option" where
  "sample_registry = [''authz'' \<mapsto> sample_ready]"

definition delete_step_config :: context_map where
  "delete_step_config = map_of [(''object'', AString ''/api''), (''action'', AString ''DELETE'')]"

definition audited_step_config :: context_map where
  "audited_step_config =
     map_of [(''module'', AString ''authz''), (''object'', AString ''/api''),
             (''action'', AString ''GET''), (''audit'', ABool True)]"

definition alice_context :: context_map where
  "alice_context = map_of [(''auth_user_id'', AString ''alice'')]"

definition no_context :: context_map where
  "no_context = map_of []"

text \<open>Configurations of the role assignment step.\<close>

definition role_config :: "any \<Rightarrow> context_map" where
  "role_config act =
     map_of [(''action'', act),
             (''assignments'', ASlice [ASlice [AString ''user'', AString ''role'']])]"

text \<open>The steps that the constructors build from these configurations.\<close>

definition delete_step :: authzCheckStep where
  "delete_step =
     \<lparr>step_name = ''check'', moduleName = ''authz'', subjectKey = ''auth_user_id'',
      object = ''/api'', action = ''DELETE'', objectTmpl = None, actionTmpl = None\<rparr>"

definition audited_step :: authzCheckStep where
  "audited_step =
     \<lparr>step_name = ''check'', moduleName = ''authz'', subjectKey = ''auth_user_id'',
      object = ''/api'', action = ''GET'', objectTmpl = None, actionTmpl = None\<rparr>"

definition role_step :: "string \<Rightarrow> authzRoleAssignStep" where
  "role_step act =
     \<lparr>ra_name = ''assign'', ra_moduleName = ''authz'', ra_action = act,
      assignments = [\<lparr>static = [''user'', ''role''], tmpls = [None, None]\<rparr>]\<rparr>"

section \<open>Properties of the row format\<close>

lemma ruleToLine_loop_takeWhile:
  "ruleToLine_loop parts vs = parts @ takeWhile (\<lambda>v. v \<noteq> []) vs"
  by (induction vs arbitrary: parts) auto

lemma Ptype_set_column [simp]: "Ptype (set_column i v r) = Ptype r"
  by (simp add: set_column_def)

lemma Ptype_lineToRule_loop [simp]: "Ptype (lineToRule_loop i vs r) = Ptype r"
  by (induction i vs r rule: lineToRule_loop.induct) auto

lemma columns_set_column:
  "i < 6 \<Longrightarrow> columns (set_column i v r) = (columns r)[i := v]"
  by (auto simp: set_column_def columns_def numeral_eq_Suc less_Suc_eq)

lemma length_columns [simp]: "length (columns r) = 6"
  by (simp add: columns_def)

lemma columns_lineToRule_loop:
  "i \<le> 6 \<Longrightarrow> columns (lineToRule_loop i vs r) =
     take i (columns r) @ take (6 - i) vs @ drop (i + length (take (6 - i) vs)) (columns r)"
proof (induction i vs r rule: lineToRule_loop.induct)
  case (1 i r)
  then show ?case by simp
next
  case (2 i v vs r)
  show ?case
  proof (cases "i \<ge> 6")
    case True
    with 2 show ?thesis by simp
  next
    case False
    then have i: "i < 6" by simp
    have "columns (lineToRule_loop i (v # vs) r) = columns (lineToRule_loop (Suc i) vs (set_column i v r))"
      using i by simp
    also have "\<dots> = take (Suc i) ((columns r)[i := v]) @ take (6 - Suc i) vs
        @ drop (Suc i + length (take (6 - Suc i) vs)) ((columns r)[i := v])"
      using 2 i by (simp add: columns_set_column)
    also have "take (Suc i) ((columns r)[i := v]) = take i (columns r) @ [v]"
      using i by (simp add: take_Suc_conv_app_nth)
    also have "drop (Suc i + length (take (6 - Suc i) vs)) ((columns r)[i := v])
        = drop (Suc i + length (take (6 - Suc i) vs)) (columns r)"
      by simp
    finally show ?thesis using i by (simp add: take_Cons' Suc_diff_Suc)
  qed
qed

lemma columns_lineToRule:
  "columns (lineToRule ptype rule) = take 6 rule @ replicate (6 - length rule) []"
proof -
  have "columns (lineToRule ptype rule) = take 6 rule @ drop (length (take 6 rule)) (replicate 6 [])"
    unfolding lineToRule_def
    by (subst columns_lineToRule_loop) (simp_all add: columns_def numeral_eq_Suc)
  then show ?thesis by (simp add: min_def)
qed

lemma takeWhile_append_replicate_Nil:
  "takeWhile (\<lambda>v. v \<noteq> []) (xs @ replicate k [])
     = takeWhile (\<lambda>v. v \<noteq> []) xs"
  by (induction xs) (auto simp: takeWhile_replicate)

lemma ruleToLine_lineToRule:
  "ruleToLine (lineToRule ptype rule)
     = Join (ptype # takeWhile (\<lambda>v. v \<noteq> []) (take 6 rule)) '', ''"
proof -
  have "Ptype (lineToRule ptype rule) = ptype"
    by (simp add: lineToRule_def)
  then show ?thesis
    by (simp add: ruleToLine_def ruleToLine_loop_takeWhile columns_lineToRule
        takeWhile_append_replicate_Nil)
qed

lemma length_Join_Cons:
  "length (Join (x # xs) sep) = length x + (\<Sum>y\<leftarrow>xs. length sep + length y)"
  by (induction xs arbitrary: x) auto

lemma Join_prefix_neq:
  assumes "ys \<noteq> []" "sep \<noteq> []"
  shows "Join (x # xs) sep \<noteq> Join (x # xs @ ys) sep"
proof -
  obtain y ys' where "ys = y # ys'" using assms(1) by (cases ys) auto
  then have "length (Join (x # xs) sep) < length (Join (x # xs @ ys) sep)"
    using assms(2) by (simp add: length_Join_Cons)
  then show ?thesis by auto
qed

lemma takeWhile_take_eq_iff:
  "takeWhile (\<lambda>v. v \<noteq> []) (take 6 rule) = rule \<longleftrightarrow> length rule \<le> 6 \<and> [] \<notin> set rule"
proof
  assume h: "takeWhile (\<lambda>v. v \<noteq> []) (take 6 rule) = rule"
  have "length (takeWhile (\<lambda>v. v \<noteq> []) (take 6 rule)) \<le> length (take 6 rule)"
    by (rule length_takeWhile_le)
  with h have l: "length rule \<le> 6" by simp
  with h have "takeWhile (\<lambda>v. v \<noteq> []) rule = rule" by simp
  then have "\<forall>v\<in>set rule. v \<noteq> []" by (simp add: takeWhile_eq_all_conv)
  with l show "length rule \<le> 6 \<and> [] \<notin> set rule" by auto
next
  assume a: "length rule \<le> 6 \<and> [] \<notin> set rule"
  then have "\<forall>v\<in>set rule. v \<noteq> []" by auto
  then have "takeWhile (\<lambda>v. v \<noteq> []) rule = rule"
    by (simp add: takeWhile_eq_all_conv)
  with a show "takeWhile (\<lambda>v. v \<noteq> []) (take 6 rule) = rule" by simp
qed

text \<open>
  Claim C10. Converting a rule to a row and the row back to a policy line gives the line
  of the original rule kind and fields exactly when the rule has at most six fields and
  none of them is empty. A rule with more than six fields loses the fields after the
  sixth, and a rule with an empty field loses that field and everything after it.
\<close>

theorem ruleToLine_lineToRule_roundtrip_iff:
  "ruleToLine (lineToRule ptype rule) = Join (ptype # rule) '', ''
     \<longleftrightarrow> length rule \<le> 6 \<and> (\<forall>f \<in> set rule. f \<noteq> [])"
proof -
  define pre where "pre = takeWhile (\<lambda>v. v \<noteq> []) (take 6 rule)"
  have line: "ruleToLine (lineToRule ptype rule) = Join (ptype # pre) '', ''"
    unfolding pre_def by (rule ruleToLine_lineToRule)
  have cond: "pre = rule \<longleftrightarrow> length rule \<le> 6 \<and> (\<forall>f \<in> set rule. f \<noteq> [])"
    unfolding pre_def using takeWhile_take_eq_iff[of rule] by auto
  show ?thesis
  proof (cases "pre = rule")
    case True
    with line cond show ?thesis by simp
  next
    case False
    have "rule = pre @ (dropWhile (\<lambda>v. v \<noteq> []) (take 6 rule) @ drop 6 rule)"
      unfolding pre_def by (metis append.assoc append_take_drop_id takeWhile_dropWhile_id)
    then obtain rest where r: "rule = pre @ rest" by blast
    with False have "rest \<noteq> []" by auto
    then have "Join (ptype # pre) '', '' \<noteq> Join (ptype # pre @ rest) '', ''"
      by (intro Join_prefix_neq) simp_all
    with line r have "ruleToLine (lineToRule ptype rule) \<noteq> Join (ptype # rule) '', ''"
      by metis
    with False cond show ?thesis by simp
  qed
qed

theorem ruleToLine_lineToRule_roundtrip_iff_witness:
  "ruleToLine (lineToRule ''p'' [''alice'', ''/api'', ''GET'']) = ''p, alice, /api, GET''
   \<and> ruleToLine (lineToRule ''p'' [''alice'', '''', ''GET''])
         \<noteq> Join [''p'', ''alice'', '''', ''GET''] '', ''
   \<and> ruleToLine (lineToRule ''p'' [''a'', ''b'', ''c'', ''d'', ''e'', ''f'', ''g''])
         \<noteq> Join [''p'', ''a'', ''b'', ''c'', ''d'', ''e'', ''f'', ''g''] '', ''"
  using ruleToLine_lineToRule_roundtrip_iff [of "''p''" "[''alice'', ''/api'', ''GET'']"]
    ruleToLine_lineToRule_roundtrip_iff [of "''p''" "[''alice'', '''', ''GET'']"]
    ruleToLine_lineToRule_roundtrip_iff
      [of "''p''" "[''a'', ''b'', ''c'', ''d'', ''e'', ''f'', ''g'']"]
  by simp

section \<open>Facts about the adapters and the engine\<close>

lemma journal_gorm_statement:
  "gorm_statement h op f w = (err, w') \<Longrightarrow> journal w' = journal w"
  by (auto simp: gorm_statement_def split: option.splits sum.splits)

lemma journal_gorm_DeleteAll:
  "gorm_DeleteAll h w = (err, w') \<Longrightarrow> journal w' = journal w"
  unfolding gorm_DeleteAll_def by (rule journal_gorm_statement)

lemma journal_gorm_Create:
  "gorm_Create h rs w = (err, w') \<Longrightarrow> journal w' = journal w"
  unfolding gorm_Create_def by (rule journal_gorm_statement)

lemma journal_gorm_DeleteWhere:
  "gorm_DeleteWhere h pat w = (err, w') \<Longrightarrow> journal w' = journal w"
  unfolding gorm_DeleteWhere_def by (rule journal_gorm_statement)

lemma journal_gorm_SavePolicy:
  assumes "gorm_SavePolicy a m w = (err, w')"
  shows "journal w' = journal w"
proof (cases "gorm_DeleteAll (db a) w")
  case (Pair derr w1)
  then have j1: "journal w1 = journal w" by (rule journal_gorm_DeleteAll)
  show ?thesis
  proof (cases derr)
    case (Some e)
    with Pair assms show ?thesis using j1 by (simp add: gorm_SavePolicy_def)
  next
    case None
    show ?thesis
    proof (cases "map (lineToRule ''p'') (fst m) @ map (lineToRule ''g'') (snd m) = []")
      case True
      with None Pair assms show ?thesis using j1 by (simp add: gorm_SavePolicy_def)
    next
      case False
      with None Pair assms
      have "gorm_Create (db a) (map (lineToRule ''p'') (fst m) @ map (lineToRule ''g'') (snd m)) w1
              = (err, w')"
        by (simp add: gorm_SavePolicy_def Let_def)
      then have "journal w' = journal w1" by (rule journal_gorm_Create)
      with j1 show ?thesis by simp
    qed
  qed
qed

lemma journal_Adapter_SavePolicy:
  "Adapter_SavePolicy ad m w = (err, ad', w')
     \<Longrightarrow> journal w' = journal w @ [SavePolicyCall (fst m) (snd m)]"
  by (auto simp: Adapter_SavePolicy_def Let_def record_call_def inMemory_SavePolicy_def
      file_SavePolicy_def split: persist_Adapter.splits prod.splits
      dest: journal_gorm_SavePolicy)

lemma journal_Adapter_AddPolicy:
  "Adapter_AddPolicy ad sec pt rule w = (err, ad', w')
     \<Longrightarrow> journal w' = journal w @ [AddPolicyCall sec pt rule]"
  by (auto simp: Adapter_AddPolicy_def Let_def record_call_def inMemory_AddPolicy_def
      gorm_AddPolicy_def split: persist_Adapter.splits prod.splits if_splits
      dest: journal_gorm_Create)

lemma journal_Adapter_RemovePolicy:
  "Adapter_RemovePolicy ad sec pt rule w = (err, ad', w')
     \<Longrightarrow> journal w' = journal w @ [RemovePolicyCall sec pt rule]"
  by (auto simp: Adapter_RemovePolicy_def Let_def record_call_def inMemory_RemovePolicy_def
      gorm_RemovePolicy_def split: persist_Adapter.splits prod.splits if_splits
      dest: journal_gorm_DeleteWhere)

lemma save_calls_append_save [simp]:
  "save_calls (w\<lparr>journal := journal w0 @ [SavePolicyCall p g]\<rparr>) = save_calls (w\<lparr>journal := journal w0\<rparr>) @ [SavePolicyCall p g]"
  by (simp add: save_calls_def is_save_def)

lemma Enforcer_SavePolicy_result:
  assumes "Enforcer_SavePolicy e w = (err, e', w')"
  shows "model e' = model e" "p_rules e' = p_rules e" "g_rules e' = g_rules e"
    "save_calls w' = save_calls w @ [SavePolicyCall (p_rules e) (g_rules e)]"
  using assms
  by (auto simp: Enforcer_SavePolicy_def save_calls_def is_save_def split: prod.splits
      dest!: journal_Adapter_SavePolicy)

lemma Enforcer_addRule_result:
  assumes "Enforcer_addRule sec e rule w = ((flag, err), e', w')"
  shows "model e' = model e"
    "save_calls w' = save_calls w"
    "flag \<longleftrightarrow> rule \<notin> set (rules_of sec e) \<and> err = None"
    "rules_of sec e' = (if flag then rules_of sec e @ [rule] else rules_of sec e)"
    "sec = ''p'' \<Longrightarrow> g_rules e' = g_rules e"
    "sec = ''g'' \<Longrightarrow> p_rules e' = p_rules e"
    "flag \<Longrightarrow> err = None"
  using assms
  by (auto simp: Enforcer_addRule_def save_calls_def is_save_def rules_of_def put_rules_def
      split: prod.splits if_splits dest!: journal_Adapter_AddPolicy)

lemma Enforcer_removeRule_result:
  assumes "Enforcer_removeRule sec e rule w = ((flag, err), e', w')"
  shows "model e' = model e"
    "save_calls w' = save_calls w"
    "flag \<longleftrightarrow> rule \<in> set (rules_of sec e) \<and> err = None"
    "rules_of sec e' = (if flag then remove1 rule (rules_of sec e) else rules_of sec e)"
    "sec = ''p'' \<Longrightarrow> g_rules e' = g_rules e"
    "sec = ''g'' \<Longrightarrow> p_rules e' = p_rules e"
    "flag \<Longrightarrow> err = None"
  using assms
  by (auto simp: Enforcer_removeRule_def save_calls_def is_save_def rules_of_def put_rules_def
      split: prod.splits if_splits dest!: journal_Adapter_RemovePolicy)


lemma gorm_statement_table:
  assumes "gorm_statement h op f w = (None, w')"
  shows "\<exists>d t t'. dbs w h = Some d \<and> table d = Some t \<and> f t = Inr t'
           \<and> dbs w' h = Some (d\<lparr>table := Some t'\<rparr>)"
  using assms
  by (auto simp: gorm_statement_def split: option.splits sum.splits)

lemma gorm_SavePolicy_table:
  assumes "gorm_SavePolicy a m w = (None, w')"
  shows "(case dbs w' (db a) of None \<Rightarrow> None | Some d \<Rightarrow> table d)
           = Some (map (lineToRule ''p'') (fst m) @ map (lineToRule ''g'') (snd m))"
proof -
  let ?rs = "map (lineToRule ''p'') (fst m) @ map (lineToRule ''g'') (snd m)"
  obtain derr w1 where d: "gorm_DeleteAll (db a) w = (derr, w1)"
    by (cases "gorm_DeleteAll (db a) w") auto
  have dn: "derr = None"
    using assms d by (cases derr) (simp_all add: gorm_SavePolicy_def)
  from d dn obtain d0 where t1: "dbs w1 (db a) = Some d0" "table d0 = Some []"
    using gorm_statement_table[of "db a" OpDelete "\<lambda>t. Inr []" w w1]
    by (auto simp: gorm_DeleteAll_def)
  show ?thesis
  proof (cases "?rs = []")
    case True
    with assms d dn have "w' = w1" by (simp add: gorm_SavePolicy_def)
    with t1 True show ?thesis by simp
  next
    case False
    with assms d dn have c: "gorm_Create (db a) ?rs w1 = (None, w')"
      by (simp add: gorm_SavePolicy_def Let_def)
    from gorm_statement_table[OF c[unfolded gorm_Create_def]] t1
    show ?thesis by (auto split: if_splits)
  qed
qed

lemma Adapter_SavePolicy_store:
  assumes "Adapter_SavePolicy ad m w = (None, ad', w')"
  shows "store_content ad' w' = stored_form ad' m"
proof (cases ad)
  case (InMemory a)
  with assms show ?thesis
    by (auto simp: Adapter_SavePolicy_def Let_def inMemory_SavePolicy_def store_content_def
        stored_form_def)
next
  case (FileAdapter path)
  with assms show ?thesis
    by (auto simp: Adapter_SavePolicy_def Let_def file_SavePolicy_def store_content_def
        stored_form_def record_call_def)
next
  case (Gorm a)
  with assms obtain w1 where "gorm_SavePolicy a m w1 = (None, w')" "ad' = ad"
    by (auto simp: Adapter_SavePolicy_def Let_def split: prod.splits)
  with Gorm gorm_SavePolicy_table[of a m w1 w'] show ?thesis
    by (simp add: store_content_def stored_form_def)
qed

lemma Enforcer_SavePolicy_store:
  assumes "Enforcer_SavePolicy e w = (None, e', w')"
  shows "store_content (adapter e') w' = stored_form (adapter e') (rule_set e)"
  using assms Adapter_SavePolicy_store[of "adapter e" "(p_rules e, g_rules e)" w]
  by (auto simp: Enforcer_SavePolicy_def rule_set_def split: prod.splits)

section \<open>Mutations and persistence\<close>

text \<open>In the engine of the model the flag of a mutation says whether the rule set changed.\<close>

lemma rule_set_addRule:
  assumes "Enforcer_addRule sec e rule w = ((flag, err), e', w')" "sec = ''p'' \<or> sec = ''g''"
  shows "rule_set e' \<noteq> rule_set e \<longleftrightarrow> flag"
  using Enforcer_addRule_result[OF assms(1)] assms(2)
  by (auto simp: rule_set_def rules_of_def split: if_splits)

lemma remove1_neq: "x \<in> set xs \<Longrightarrow> remove1 x xs \<noteq> xs"
  by (metis length_remove1 One_nat_def Suc_pred length_pos_if_in_set n_not_Suc_n)

lemma rule_set_removeRule:
  assumes "Enforcer_removeRule sec e rule w = ((flag, err), e', w')" "sec = ''p'' \<or> sec = ''g''"
  shows "rule_set e' \<noteq> rule_set e \<longleftrightarrow> flag"
  using Enforcer_removeRule_result[OF assms(1)] assms(2) remove1_neq[of rule "rules_of sec e"]
  by (auto simp: rule_set_def rules_of_def split: if_splits)

lemma mutation_persists_generic:
  assumes eng: "eng e rule w = ((flag, merr), e1, w1)"
    and sv: "save_calls w1 = save_calls w"
    and op: "op m rule w =
      (case eng e rule w of
         ((ok, Some err), e1, w1) \<Rightarrow> ((False, Some err), m\<lparr>enforcer := Some e1\<rparr>, w1)
       | ((ok, None), e1, w1) \<Rightarrow>
           if ok then
             (case Enforcer_SavePolicy e1 w1 of
                (Some err, e2, w2) \<Rightarrow> ((False, Some err), m\<lparr>enforcer := Some e2\<rparr>, w2)
              | (None, e2, w2) \<Rightarrow> ((ok, None), m\<lparr>enforcer := Some e2\<rparr>, w2))
           else ((ok, None), m\<lparr>enforcer := Some e1\<rparr>, w1))"
  shows "mutation_persists w (eng e rule w) (op m rule w)"
proof (cases "flag \<and> merr = None")
  case True
  obtain serr e2 w2 where s: "Enforcer_SavePolicy e1 w1 = (serr, e2, w2)"
    by (cases "Enforcer_SavePolicy e1 w1") auto
  have j: "save_calls w2 = save_calls w @ [SavePolicyCall (p_rules e1) (g_rules e1)]"
    using Enforcer_SavePolicy_result(4)[OF s] sv by simp
  show ?thesis
  proof (cases serr)
    case (Some err)
    with True s j show ?thesis
      by (simp add: op eng mutation_persists_def)
  next
    case None
    have r: "rule_set e2 = rule_set e1"
      using Enforcer_SavePolicy_result(2,3)[OF s] by (simp add: rule_set_def)
    have st: "store_content (adapter e2) w2 = stored_form (adapter e2) (rule_set e1)"
      using Enforcer_SavePolicy_store[of e1 w1 e2 w2] s None by simp
    from True s j None r st show ?thesis
      by (simp add: op eng mutation_persists_def)
  qed
next
  case False
  then show ?thesis
    using sv by (cases merr; cases flag) (simp_all add: op eng mutation_persists_def)
qed

lemma AddPolicy_persists:
  assumes "enforcer m = Some e"
  shows "mutation_persists w (Enforcer_AddPolicy e rule w) (AddPolicy m rule w)"
proof -
  obtain flag merr e1 w1 where r: "Enforcer_AddPolicy e rule w = ((flag, merr), e1, w1)"
    by (cases "Enforcer_AddPolicy e rule w") auto
  then have r': "Enforcer_addRule ''p'' e rule w = ((flag, merr), e1, w1)"
    by (simp add: Enforcer_AddPolicy_def)
  show ?thesis
  proof (rule mutation_persists_generic[where eng=Enforcer_AddPolicy and op=AddPolicy, OF r])
    show "save_calls w1 = save_calls w"
      by (rule Enforcer_addRule_result(2)[OF r'])
  qed (simp add: AddPolicy_def assms)
qed

lemma RemovePolicy_persists:
  assumes "enforcer m = Some e"
  shows "mutation_persists w (Enforcer_RemovePolicy e rule w) (RemovePolicy m rule w)"
proof -
  obtain flag merr e1 w1 where r: "Enforcer_RemovePolicy e rule w = ((flag, merr), e1, w1)"
    by (cases "Enforcer_RemovePolicy e rule w") auto
  then have r': "Enforcer_removeRule ''p'' e rule w = ((flag, merr), e1, w1)"
    by (simp add: Enforcer_RemovePolicy_def)
  show ?thesis
  proof (rule mutation_persists_generic[where eng=Enforcer_RemovePolicy and op=RemovePolicy, OF r])
    show "save_calls w1 = save_calls w"
      by (rule Enforcer_removeRule_result(2)[OF r'])
  qed (simp add: RemovePolicy_def assms)
qed

lemma AddGroupingPolicy_persists:
  assumes "enforcer m = Some e"
  shows "mutation_persists w (Enforcer_AddGroupingPolicy e rule w) (AddGroupingPolicy m rule w)"
proof -
  obtain flag merr e1 w1 where r: "Enforcer_AddGroupingPolicy e rule w = ((flag, merr), e1, w1)"
    by (cases "Enforcer_AddGroupingPolicy e rule w") auto
  then have r': "Enforcer_addRule ''g'' e rule w = ((flag, merr), e1, w1)"
    by (simp add: Enforcer_AddGroupingPolicy_def)
  show ?thesis
  proof (rule mutation_persists_generic[where eng=Enforcer_AddGroupingPolicy
        and op=AddGroupingPolicy, OF r])
    show "save_calls w1 = save_calls w"
      by (rule Enforcer_addRule_result(2)[OF r'])
  qed (simp add: AddGroupingPolicy_def assms)
qed

lemma RemoveGroupingPolicy_persists:
  assumes "enforcer m = Some e"
  shows "mutation_persists w (Enforcer_RemoveGroupingPolicy e rule w)
           (RemoveGroupingPolicy m rule w)"
proof -
  obtain flag merr e1 w1 where r: "Enforcer_RemoveGroupingPolicy e rule w = ((flag, merr), e1, w1)"
    by (cases "Enforcer_RemoveGroupingPolicy e rule w") auto
  then have r': "Enforcer_removeRule ''g'' e rule w = ((flag, merr), e1, w1)"
    by (simp add: Enforcer_RemoveGroupingPolicy_def)
  show ?thesis
  proof (rule mutation_persists_generic[where eng=Enforcer_RemoveGroupingPolicy
        and op=RemoveGroupingPolicy, OF r])
    show "save_calls w1 = save_calls w"
      by (rule Enforcer_removeRule_result(2)[OF r'])
  qed (simp add: RemoveGroupingPolicy_def assms)
qed

text \<open>
  Claim C4, as amended. For each of the four mutations of an initialised module
  (AddPolicy, RemovePolicy, AddGroupingPolicy, RemoveGroupingPolicy): the method saves
  the full current rule set, once, if and only if the engine's mutation has reported a
  change (it returned \<open>true\<close> and no error). When that save fails the method returns
  the save's error with \<open>false\<close>, not the mutation's success. When it succeeds the method
  returns \<open>true\<close> and the store holds the rule set in the form in which the adapter
  stores it: the rows themselves in the in-memory adapter, one line per rule in the
  file, and in the relational table one row per rule with the first six fields of the
  rule.
\<close>

theorem mutations_persist_iff_changed:
  assumes "enforcer m = Some e"
  shows "mutation_persists w (Enforcer_AddPolicy e rule w) (AddPolicy m rule w)
       \<and> mutation_persists w (Enforcer_RemovePolicy e rule w) (RemovePolicy m rule w)
       \<and> mutation_persists w (Enforcer_AddGroupingPolicy e rule w) (AddGroupingPolicy m rule w)
       \<and> mutation_persists w (Enforcer_RemoveGroupingPolicy e rule w)
           (RemoveGroupingPolicy m rule w)"
  using assms
  by (simp add: AddPolicy_persists RemovePolicy_persists AddGroupingPolicy_persists
      RemoveGroupingPolicy_persists)

section \<open>Decisions without a matching row\<close>

lemma Init_sample_module:
  "Init sample_libs sample_module empty_world
     = (None, sample_ready, record_call LoadPolicyCall empty_world)"
  by (simp add: Init_def sample_libs_def sample_module_def sample_ready_def sample_engine_def
      rbac_text_def buildAdapter_def no_adapter_def NewEnforcer_def Adapter_LoadPolicy_def
      inMemory_LoadPolicy_def newInMemoryAdapter_def LoadPolicyLine_def csv_fields_def)

lemma Init_deny_override_module:
  "Init sample_libs deny_override_module empty_world
     = (None, deny_override_ready, record_call LoadPolicyCall empty_world)"
  by (simp add: Init_def sample_libs_def deny_override_module_def deny_override_ready_def
      sample_engine_def rbac_text_def deny_override_text_def buildAdapter_def no_adapter_def
      NewEnforcer_def Adapter_LoadPolicy_def inMemory_LoadPolicy_def newInMemoryAdapter_def
      LoadPolicyLine_def csv_fields_def)

text \<open>
  Claim C1, as amended. For every initialised module whose effect expression denies
  when no policy row is decided (as \<open>some(where (p.eft == allow))\<close> does), and every
  query for which the matcher holds of no policy row, \<open>Enforce\<close> returns \<open>false\<close> and
  no error.
\<close>

theorem Enforce_no_match_denies:
  assumes "enforcer m = Some e"
    and "\<forall>row \<in> set (p_rules e). \<not> matcher (model e) (g_rules e) [sub, obj, act] row"
    and "\<forall>ds. set ds \<subseteq> {Indeterminate} \<longrightarrow> \<not> effect (model e) ds"
  shows "Enforce m sub obj act = (False, None)"
proof -
  let ?ds = "map (row_result (model e) (g_rules e) [sub, obj, act]) (p_rules e)"
  have "set ?ds \<subseteq> {Indeterminate}"
    using assms(2) by (auto simp: row_result_def)
  with assms(3) have "\<not> effect (model e) ?ds" by blast
  with assms(1) show ?thesis
    by (simp add: Enforce_def Enforcer_Enforce_def)
qed

lemma some_allow_indeterminate: "set ds \<subseteq> {Indeterminate} \<Longrightarrow> \<not> some_allow ds"
  by (auto simp: some_allow_def)

theorem Enforce_no_match_denies_witness:
  "enforcer sample_ready = Some sample_engine
   \<and> \<not> matcher (model sample_engine) (g_rules sample_engine)
         [''alice'', ''/api'', ''DELETE''] [''admin'', ''/api'', ''GET'']
   \<and> Enforce sample_ready ''alice'' ''/api'' ''DELETE'' = (False, None)"
proof -
  have 1: "enforcer sample_ready = Some sample_engine"
    by (simp add: sample_ready_def)
  have 2: "\<forall>row \<in> set (p_rules sample_engine).
      \<not> matcher (model sample_engine) (g_rules sample_engine) [''alice'', ''/api'', ''DELETE''] row"
    by (simp add: sample_engine_def rbac_model_def rbac_matcher_def)
  have 3: "\<forall>ds. set ds \<subseteq> {Indeterminate} \<longrightarrow> \<not> effect (model sample_engine) ds"
    by (simp add: sample_engine_def rbac_model_def some_allow_indeterminate)
  have 4: "p_rules sample_engine = [[''admin'', ''/api'', ''GET'']]"
    by (simp add: sample_engine_def)
  show ?thesis
    using 1 2 4 Enforce_no_match_denies [OF 1 2 3] by simp
qed

text \<open>
  The claim as stated, for every valid initialised module, fails for a module whose model
  has the effect \<open>!some(where (p.eft == deny))\<close>: the one policy row does not match the
  query, and \<open>Enforce\<close> returns \<open>true\<close>.
\<close>

theorem Enforce_no_match_counterexample:
  "Init sample_libs deny_override_module empty_world
     = (None, deny_override_ready, record_call LoadPolicyCall empty_world)
   \<and> enforcer deny_override_ready = Some (sample_engine\<lparr>model := deny_override_model\<rparr>)
   \<and> p_rules (sample_engine\<lparr>model := deny_override_model\<rparr>) = [[''admin'', ''/api'', ''GET'']]
   \<and> \<not> matcher deny_override_model (g_rules sample_engine)
         [''bob'', ''/files'', ''GET''] [''admin'', ''/api'', ''GET'']
   \<and> Enforce deny_override_ready ''bob'' ''/files'' ''GET'' = (True, None)"
  by (simp add: Init_deny_override_module)
     (simp add: deny_override_ready_def sample_engine_def deny_override_model_def
        rbac_matcher_def Enforce_def Enforcer_Enforce_def row_result_def not_some_deny_def)

section \<open>Adding and removing a policy row\<close>

lemma AddPolicy_engine:
  assumes "enforcer m = Some e" "AddPolicy m row w = ((ok, None), m1, w1)"
  shows "\<exists>e1. enforcer m1 = Some e1 \<and> model e1 = model e \<and> g_rules e1 = g_rules e
           \<and> p_rules e1 = (if row \<in> set (p_rules e) then p_rules e else p_rules e @ [row])"
proof -
  obtain flag merr ea wa where r: "Enforcer_addRule ''p'' e row w = ((flag, merr), ea, wa)"
    by (cases "Enforcer_addRule ''p'' e row w") auto
  note f = Enforcer_addRule_result[OF r]
  have pa: "p_rules ea = (if flag then p_rules e @ [row] else p_rules e)"
    using f(4) by (simp add: rules_of_def)
  have ga: "g_rules ea = g_rules e" using f(5) by simp
  have fl: "flag \<longleftrightarrow> row \<notin> set (p_rules e) \<and> merr = None"
    using f(3) by (simp add: rules_of_def)
  show ?thesis
  proof (cases merr)
    case (Some err)
    with assms r show ?thesis by (simp add: AddPolicy_def Enforcer_AddPolicy_def)
  next
    case None
    show ?thesis
    proof (cases flag)
      case False
      with None assms r have "m1 = m\<lparr>enforcer := Some ea\<rparr>"
        by (simp add: AddPolicy_def Enforcer_AddPolicy_def)
      with False None f(1) pa ga fl show ?thesis by auto
    next
      case True
      obtain serr e2 w2 where s: "Enforcer_SavePolicy ea wa = (serr, e2, w2)"
        by (cases "Enforcer_SavePolicy ea wa") auto
      note g = Enforcer_SavePolicy_result[OF s]
      from True None assms r s have "m1 = m\<lparr>enforcer := Some e2\<rparr>"
        by (cases serr) (simp_all add: AddPolicy_def Enforcer_AddPolicy_def)
      with True None f(1) pa ga fl g show ?thesis by auto
    qed
  qed
qed

lemma RemovePolicy_engine:
  assumes "enforcer m = Some e" "RemovePolicy m row w = ((ok, None), m1, w1)"
  shows "\<exists>e1. enforcer m1 = Some e1 \<and> model e1 = model e \<and> g_rules e1 = g_rules e
           \<and> p_rules e1 = remove1 row (p_rules e)"
proof -
  obtain flag merr ea wa where r: "Enforcer_removeRule ''p'' e row w = ((flag, merr), ea, wa)"
    by (cases "Enforcer_removeRule ''p'' e row w") auto
  note f = Enforcer_removeRule_result[OF r]
  have fl: "flag \<longleftrightarrow> row \<in> set (p_rules e) \<and> merr = None"
    using f(3) by (simp add: rules_of_def)
  have pa: "p_rules ea = (if flag then remove1 row (p_rules e) else p_rules e)"
    using f(4) by (simp add: rules_of_def)
  have ga: "g_rules ea = g_rules e" using f(5) by simp
  show ?thesis
  proof (cases merr)
    case (Some err)
    with assms r show ?thesis by (simp add: RemovePolicy_def Enforcer_RemovePolicy_def)
  next
    case None
    show ?thesis
    proof (cases flag)
      case False
      with None assms r have "m1 = m\<lparr>enforcer := Some ea\<rparr>"
        by (simp add: RemovePolicy_def Enforcer_RemovePolicy_def)
      moreover from False None fl have "remove1 row (p_rules e) = p_rules e"
        by (simp add: remove1_idem)
      ultimately show ?thesis using False f(1) pa ga by auto
    next
      case True
      obtain serr e2 w2 where s: "Enforcer_SavePolicy ea wa = (serr, e2, w2)"
        by (cases "Enforcer_SavePolicy ea wa") auto
      note g = Enforcer_SavePolicy_result[OF s]
      from True None assms r s have "m1 = m\<lparr>enforcer := Some e2\<rparr>"
        by (cases serr) (simp_all add: RemovePolicy_def Enforcer_RemovePolicy_def)
      with True f(1) pa ga g show ?thesis by auto
    qed
  qed
qed

lemma Allow_in_row_results:
  "Allow \<in> set (map (row_result md g req) rs)
     \<longleftrightarrow> (\<exists>r \<in> set rs. matcher md g req r \<and> eft_of md r = Allow)"
  by (induction rs) (auto simp: row_result_def)

lemma Enforce_some_allow:
  assumes "enforcer m = Some e" "effect (model e) = some_allow"
  shows "Enforce m sub obj act =
     ((\<exists>r \<in> set (p_rules e). matcher (model e) (g_rules e) [sub, obj, act] r
          \<and> eft_of (model e) r = Allow), None)"
  using assms Allow_in_row_results[of "model e" "g_rules e" "[sub, obj, act]" "p_rules e"]
  by (simp add: Enforce_def Enforcer_Enforce_def some_allow_def del: set_map)

text \<open>
  Claim C2, as amended. For every initialised module whose effect expression is
  \<open>some(where (p.eft == allow))\<close> and every policy row with the effect allow: after
  \<open>AddPolicy row\<close> has succeeded, a query that the matcher accepts against the row is
  allowed; after a following \<open>RemovePolicy row\<close> has succeeded, the same query is
  denied exactly when no row left in the rule set (the rows the module held before,
  without one occurrence of \<open>row\<close>) matches it with the effect allow.
\<close>

theorem AddPolicy_RemovePolicy_roundtrip:
  assumes "enforcer m = Some e"
    and "effect (model e) = some_allow"
    and "matcher (model e) (g_rules e) [sub, obj, act] row"
    and "eft_of (model e) row = Allow"
    and "AddPolicy m row w = ((ok1, None), m1, w1)"
    and "RemovePolicy m1 row w1 = ((ok2, None), m2, w2)"
  shows "Enforce m1 sub obj act = (True, None)
       \<and> (Enforce m2 sub obj act = (False, None) \<longleftrightarrow>
            \<not> (\<exists>r \<in> set (remove1 row (p_rules e)).
                  matcher (model e) (g_rules e) [sub, obj, act] r \<and> eft_of (model e) r = Allow))"
proof -
  obtain e1 where e1: "enforcer m1 = Some e1" "model e1 = model e" "g_rules e1 = g_rules e"
      "p_rules e1 = (if row \<in> set (p_rules e) then p_rules e else p_rules e @ [row])"
    using AddPolicy_engine[OF assms(1) assms(5)] by blast
  obtain e2 where e2: "enforcer m2 = Some e2" "model e2 = model e1" "g_rules e2 = g_rules e1"
      "p_rules e2 = remove1 row (p_rules e1)"
    using RemovePolicy_engine[OF e1(1) assms(6)] by blast
  have in1: "row \<in> set (p_rules e1)" using e1(4) by simp
  have first: "Enforce m1 sub obj act = (True, None)"
    using Enforce_some_allow[OF e1(1), of sub obj act] assms(2,3,4) e1(2,3) in1 by auto
  have left: "p_rules e2 = remove1 row (p_rules e)"
    using e1(4) e2(4) by (simp add: remove1_append remove1_idem)
  have second: "Enforce m2 sub obj act =
      ((\<exists>r \<in> set (remove1 row (p_rules e)).
          matcher (model e) (g_rules e) [sub, obj, act] r \<and> eft_of (model e) r = Allow), None)"
    using Enforce_some_allow[OF e2(1), of sub obj act] assms(2) e1(2,3) e2(2,3) left by simp
  show ?thesis using first second by simp
qed

section \<open>The sample runs\<close>

lemmas mutation_defs =
  AddPolicy_def RemovePolicy_def AddGroupingPolicy_def RemoveGroupingPolicy_def
  Enforcer_AddPolicy_def Enforcer_RemovePolicy_def Enforcer_AddGroupingPolicy_def
  Enforcer_RemoveGroupingPolicy_def Enforcer_addRule_def Enforcer_removeRule_def
  Enforcer_SavePolicy_def rules_of_def put_rules_def
  Adapter_AddPolicy_def Adapter_RemovePolicy_def Adapter_SavePolicy_def
  inMemory_AddPolicy_def inMemory_RemovePolicy_def inMemory_SavePolicy_def
  record_call_def sliceEqual_def

lemmas sample_defs =
  sample_ready_def sample_module_def sample_engine_def rbac_model_def rbac_matcher_def
  empty_world_def no_adapter_def no_watcher_def

lemma alice_added_eval:
  "alice_added =
     ((True, None),
      sample_ready\<lparr>enforcer := Some (sample_engine
         \<lparr>p_rules := [[''admin'', ''/api'', ''GET''], alice_row],
          adapter := InMemory \<lparr>policies = [[''admin'', ''/api'', ''GET''], alice_row],
                               roleAssignments = [[''alice'', ''admin'']]\<rparr>\<rparr>)\<rparr>,
      empty_world\<lparr>journal := [AddPolicyCall ''p'' ''p'' alice_row,
         SavePolicyCall [[''admin'', ''/api'', ''GET''], alice_row] [[''alice'', ''admin'']]]\<rparr>)"
  by (simp add: alice_added_def alice_row_def mutation_defs sample_defs)

lemma alice_removed_eval:
  "alice_removed =
     ((True, None),
      sample_ready,
      empty_world\<lparr>journal := [AddPolicyCall ''p'' ''p'' alice_row,
         SavePolicyCall [[''admin'', ''/api'', ''GET''], alice_row] [[''alice'', ''admin'']],
         RemovePolicyCall ''p'' ''p'' alice_row,
         SavePolicyCall [[''admin'', ''/api'', ''GET'']] [[''alice'', ''admin'']]]\<rparr>)"
  by (simp add: alice_removed_def alice_added_eval)
     (simp add: alice_row_def mutation_defs sample_defs)

text \<open>
  The claim as stated fails when another row allows the query: alice holds the role
  admin, whose row allows the query, so after alice's own row is added and removed
  again the query is still allowed.
\<close>

theorem AddPolicy_RemovePolicy_counterexample:
  "fst alice_added = (True, None)
   \<and> matcher (model sample_engine) (g_rules sample_engine) [''alice'', ''/api'', ''GET''] alice_row
   \<and> Enforce (fst (snd alice_added)) ''alice'' ''/api'' ''GET'' = (True, None)
   \<and> fst alice_removed = (True, None)
   \<and> Enforce (fst (snd alice_removed)) ''alice'' ''/api'' ''GET'' = (True, None)"
  by (simp add: alice_added_eval alice_removed_eval)
     (simp add: alice_row_def sample_defs Enforce_def Enforcer_Enforce_def row_result_def
        some_allow_def)

lemma bob_added_eval:
  "bob_added =
     ((True, None),
      sample_ready\<lparr>enforcer := Some (sample_engine
         \<lparr>p_rules := [[''admin'', ''/api'', ''GET''], bob_row],
          adapter := InMemory \<lparr>policies = [[''admin'', ''/api'', ''GET''], bob_row],
                               roleAssignments = [[''alice'', ''admin'']]\<rparr>\<rparr>)\<rparr>,
      empty_world\<lparr>journal := [AddPolicyCall ''p'' ''p'' bob_row,
         SavePolicyCall [[''admin'', ''/api'', ''GET''], bob_row] [[''alice'', ''admin'']]]\<rparr>)"
  by (simp add: bob_added_def bob_row_def mutation_defs sample_defs)

lemma bob_removed_eval:
  "bob_removed =
     ((True, None),
      sample_ready,
      empty_world\<lparr>journal := [AddPolicyCall ''p'' ''p'' bob_row,
         SavePolicyCall [[''admin'', ''/api'', ''GET''], bob_row] [[''alice'', ''admin'']],
         RemovePolicyCall ''p'' ''p'' bob_row,
         SavePolicyCall [[''admin'', ''/api'', ''GET'']] [[''alice'', ''admin'']]]\<rparr>)"
  by (simp add: bob_removed_def bob_added_eval)
     (simp add: bob_row_def mutation_defs sample_defs)

theorem AddPolicy_RemovePolicy_roundtrip_witness:
  "enforcer sample_ready = Some sample_engine
   \<and> matcher (model sample_engine) (g_rules sample_engine) [''bob'', ''/files'', ''GET''] bob_row
   \<and> fst bob_added = (True, None)
   \<and> fst bob_removed = (True, None)
   \<and> Enforce (fst (snd bob_added)) ''bob'' ''/files'' ''GET'' = (True, None)
   \<and> Enforce (fst (snd bob_removed)) ''bob'' ''/files'' ''GET'' = (False, None)"
proof -
  have 1: "enforcer sample_ready = Some sample_engine"
    by (simp add: sample_ready_def)
  have 2: "effect (model sample_engine) = some_allow"
    by (simp add: sample_engine_def rbac_model_def)
  have 3: "matcher (model sample_engine) (g_rules sample_engine) [''bob'', ''/files'', ''GET''] bob_row"
    by (simp add: bob_row_def sample_defs)
  have 4: "eft_of (model sample_engine) bob_row = Allow"
    by (simp add: sample_engine_def rbac_model_def)
  have 5: "AddPolicy sample_ready bob_row empty_world
      = ((True, None), fst (snd bob_added), snd (snd bob_added))"
    using bob_added_eval by (simp add: bob_added_def)
  have 6: "RemovePolicy (fst (snd bob_added)) bob_row (snd (snd bob_added))
      = ((True, None), fst (snd bob_removed), snd (snd bob_removed))"
    using bob_removed_eval by (simp add: bob_removed_def)
  have 7: "\<not> (\<exists>r \<in> set (remove1 bob_row (p_rules sample_engine)).
      matcher (model sample_engine) (g_rules sample_engine) [''bob'', ''/files'', ''GET''] r
      \<and> eft_of (model sample_engine) r = Allow)"
    by (simp add: bob_row_def sample_defs)
  show ?thesis
    using 1 3 7 AddPolicy_RemovePolicy_roundtrip [OF 1 2 3 4 5 6]
    by (simp add: bob_added_eval bob_removed_eval)
qed

lemmas gorm_defs =
  gorm_AddPolicy_def gorm_RemovePolicy_def gorm_SavePolicy_def gorm_Create_def
  gorm_DeleteAll_def gorm_DeleteWhere_def gorm_statement_def index_key_def columns_def
  lineToRule_def set_column_def

lemma sqlite_add_failing:
  "fst (AddPolicy sqlite_ready alice_row failing_world) = (False, Some (External ''disk I/O error''))"
  by (simp add: alice_row_def mutation_defs sqlite_ready_def sqlite_module_def sqlite_engine_def
      failing_world_def gorm_defs)

lemma bob_added_store:
  "store_content
     (InMemory \<lparr>policies = [[''admin'', ''/api'', ''GET''], bob_row],
                roleAssignments = [[''alice'', ''admin'']]\<rparr>)
     (snd (snd (AddPolicy sample_ready bob_row empty_world)))
   = MemoryRows [[''admin'', ''/api'', ''GET''], bob_row] [[''alice'', ''admin'']]"
  by (simp add: store_content_def)

theorem mutations_persist_iff_changed_witness:
  "enforcer sample_ready = Some sample_engine
   \<and> mutation_persists empty_world
        (Enforcer_AddPolicy sample_engine bob_row empty_world)
        (AddPolicy sample_ready bob_row empty_world)
   \<and> fst (AddPolicy sample_ready bob_row empty_world) = (True, None)
   \<and> save_calls (snd (snd (AddPolicy sample_ready bob_row empty_world)))
        = [SavePolicyCall [[''admin'', ''/api'', ''GET''], bob_row] [[''alice'', ''admin'']]]
   \<and> map_option adapter (enforcer (fst (snd (AddPolicy sample_ready bob_row empty_world))))
        = Some (InMemory \<lparr>policies = [[''admin'', ''/api'', ''GET''], bob_row],
                            roleAssignments = [[''alice'', ''admin'']]\<rparr>)
   \<and> enforcer sqlite_ready = Some sqlite_engine
   \<and> mutation_persists failing_world
        (Enforcer_AddPolicy sqlite_engine alice_row failing_world)
        (AddPolicy sqlite_ready alice_row failing_world)
   \<and> fst (AddPolicy sqlite_ready alice_row failing_world)
        = (False, Some (External ''disk I/O error''))"
proof -
  have 1: "enforcer sample_ready = Some sample_engine"
    by (simp add: sample_ready_def)
  have 2: "enforcer sqlite_ready = Some sqlite_engine"
    by (simp add: sqlite_ready_def)
  have 3: "fst (AddPolicy sample_ready bob_row empty_world) = (True, None)"
    using bob_added_eval by (simp add: bob_added_def)
  have 4: "save_calls (snd (snd (AddPolicy sample_ready bob_row empty_world)))
        = [SavePolicyCall [[''admin'', ''/api'', ''GET''], bob_row] [[''alice'', ''admin'']]]"
    using bob_added_eval by (simp add: bob_added_def save_calls_def is_save_def empty_world_def)
  have 5: "mutation_persists empty_world
        (Enforcer_AddPolicy sample_engine bob_row empty_world)
        (AddPolicy sample_ready bob_row empty_world)"
    using mutations_persist_iff_changed [OF 1, of empty_world bob_row] by blast
  have 6: "mutation_persists failing_world
        (Enforcer_AddPolicy sqlite_engine alice_row failing_world)
        (AddPolicy sqlite_ready alice_row failing_world)"
    using mutations_persist_iff_changed [OF 2, of failing_world alice_row] by blast
  have 7: "map_option adapter (enforcer (fst (snd (AddPolicy sample_ready bob_row empty_world))))
        = Some (InMemory \<lparr>policies = [[''admin'', ''/api'', ''GET''], bob_row],
                            roleAssignments = [[''alice'', ''admin'']]\<rparr>)"
    using bob_added_eval by (simp add: bob_added_def)
  show ?thesis
    using 1 2 3 4 5 6 7 sqlite_add_failing by blast
qed

lemma seven_added_eval:
  "fst seven_added = (True, None)"
  "enforcer (fst (snd seven_added)) = Some (sqlite_engine\<lparr>p_rules := [seven_row]\<rparr>)"
  "journal (snd (snd seven_added))
     = [AddPolicyCall ''p'' ''p'' seven_row, SavePolicyCall [seven_row] []]"
  "dbs (snd (snd seven_added)) (SQLite, ''authz.db'', 0)
     = Some \<lparr>table = Some [\<lparr>ID = 0, Ptype = ''p'', V0 = ''a'', V1 = ''b'', V2 = ''c'',
                               V3 = ''d'', V4 = ''e'', V5 = ''f''\<rparr>],
               faults = (\<lambda>op. None)\<rparr>"
  by (simp_all add: seven_added_def seven_row_def mutation_defs sqlite_ready_def
      sqlite_module_def sqlite_engine_def sqlite_world_migrated_def gorm_defs)

text \<open>
  The claim as stated fails on the relational adapter for a row of more than six
  fields: the mutation changes the rule set and is reported as successful, the save is
  made and succeeds, and the table then holds the row without its seventh field, so the
  store does not hold the current rule set.
\<close>

theorem mutations_persist_counterexample:
  "enforcer sqlite_ready = Some sqlite_engine
   \<and> p_rules sqlite_engine = []
   \<and> fst seven_added = (True, None)
   \<and> map_option p_rules (enforcer (fst (snd seven_added)))
        = Some [[''a'', ''b'', ''c'', ''d'', ''e'', ''f'', ''g'']]
   \<and> save_calls (snd (snd seven_added))
        = [SavePolicyCall [[''a'', ''b'', ''c'', ''d'', ''e'', ''f'', ''g'']] []]
   \<and> store_content (adapter sqlite_engine) (snd (snd seven_added))
        = TableRows (Some [\<lparr>ID = 0, Ptype = ''p'', V0 = ''a'', V1 = ''b'', V2 = ''c'',
                             V3 = ''d'', V4 = ''e'', V5 = ''f''\<rparr>])
   \<and> (case store_content (adapter sqlite_engine) (snd (snd seven_added)) of
         TableRows (Some t) \<Rightarrow> map ruleToLine t | _ \<Rightarrow> [])
        = [''p, a, b, c, d, e, f'']"
  by (simp add: seven_added_eval save_calls_def is_save_def store_content_def)
     (simp add: seven_added_eval seven_row_def sqlite_ready_def sqlite_engine_def ruleToLine_def
        columns_def)

section \<open>Initialisation\<close>

lemma file_LoadPolicy_cong:
  "files w' = files w \<Longrightarrow> file_LoadPolicy L p r w' = file_LoadPolicy L p r w"
  by (simp add: file_LoadPolicy_def)

lemma Adapter_LoadPolicy_world:
  "snd (Adapter_LoadPolicy L ad r w) = record_call LoadPolicyCall w"
  by (simp add: Adapter_LoadPolicy_def Let_def split: persist_Adapter.splits)

lemma Adapter_LoadPolicy_cong:
  assumes "files w' = files w" "\<forall>a. ad \<noteq> Gorm a"
  shows "fst (Adapter_LoadPolicy L ad r w') = fst (Adapter_LoadPolicy L ad r w)"
  using assms
  by (cases ad)
     (simp_all add: Adapter_LoadPolicy_def Let_def record_call_def
        file_LoadPolicy_cong[of "w'\<lparr>journal := journal w' @ [LoadPolicyCall]\<rparr>"
                                "w\<lparr>journal := journal w @ [LoadPolicyCall]\<rparr>"])

lemma NewEnforcer_world:
  "snd (NewEnforcer L md ad w) = record_call LoadPolicyCall w"
  using Adapter_LoadPolicy_world[of L ad "([], [])" w]
  by (cases "Adapter_LoadPolicy L ad ([], []) w")
     (auto simp: NewEnforcer_def split: sum.splits)

lemma NewEnforcer_cong:
  assumes "files w' = files w" "\<forall>a. ad \<noteq> Gorm a"
  shows "fst (NewEnforcer L md ad w') = fst (NewEnforcer L md ad w)"
  using Adapter_LoadPolicy_cong[OF assms, of L "([], [])"]
  by (cases "Adapter_LoadPolicy L ad ([], []) w"; cases "Adapter_LoadPolicy L ad ([], []) w'")
     (auto simp: NewEnforcer_def split: sum.splits)

lemma buildAdapter_without_database:
  assumes "ToLower (Type (Adapter (config m))) \<noteq> ''gorm''"
  shows "buildAdapter (m\<lparr>enforcer := x\<rparr>) w' = (fst (buildAdapter m w), w')"
    and "\<forall>a. fst (buildAdapter m w) \<noteq> Inr (Gorm a)"
  using assms by (simp_all add: buildAdapter_def Let_def)

text \<open>
  On the in-memory adapter and on the file adapter a second \<open>Init\<close> succeeds and
  leaves the module as the first one left it.
\<close>

lemma Init_twice_without_database:
  assumes "ToLower (Type (Adapter (config m))) \<noteq> ''gorm''"
    and "Init L m w = (None, m1, w1)"
  shows "Init L m1 w1 = (None, m1, record_call LoadPolicyCall w1)"
proof -
  from assms(2) obtain md where md: "NewModelFromString L (Model (config m)) = Inr md"
    by (auto simp: Init_def split: sum.splits prod.splits)
  from assms(2) md obtain ad w0 where ad: "buildAdapter m w = (Inr ad, w0)"
    by (auto simp: Init_def split: sum.splits prod.splits)
  have w0: "w0 = w"
    using buildAdapter_without_database(1)[OF assms(1), of "enforcer m" w w] ad by simp
  from assms(2) md ad obtain e where e: "NewEnforcer L md ad w = (Inr e, w1)"
      "m1 = m\<lparr>enforcer := Some e\<rparr>"
    by (auto simp: Init_def w0 split: sum.splits prod.splits)
  have w1: "w1 = record_call LoadPolicyCall w"
    using e(1) NewEnforcer_world[of L md ad w] by simp
  have g: "\<forall>a. ad \<noteq> Gorm a"
    using buildAdapter_without_database(2)[OF assms(1), of w] ad by simp
  have b: "buildAdapter m1 w1 = (Inr ad, w1)"
    using buildAdapter_without_database(1)[OF assms(1), of "Some e" w1 w] ad
    by (simp add: e(2))
  have "files w1 = files w" by (simp add: w1 record_call_def)
  then have "fst (NewEnforcer L md ad w1) = Inr e"
    using NewEnforcer_cong[OF _ g, of w1 w L md] e(1) by simp
  then have n: "NewEnforcer L md ad w1 = (Inr e, record_call LoadPolicyCall w1)"
    using NewEnforcer_world[of L md ad w1] by (cases "NewEnforcer L md ad w1") simp
  show ?thesis
    using md b n by (simp add: Init_def e(2))
qed

lemma sqlite_world_after_migration:
  "sqlite_world\<lparr>dbs := (dbs sqlite_world)((SQLite, ''authz.db'', 0) \<mapsto>
       \<lparr>table = Some [], faults = (\<lambda>op. None)\<rparr>)\<rparr> = sqlite_world_migrated"
  by (simp add: sqlite_world_def sqlite_world_migrated_def fun_eq_iff)

lemma Init_sqlite_module:
  "Init sample_libs sqlite_module sqlite_world
     = (None, sqlite_ready, record_call LoadPolicyCall sqlite_world_migrated)"
proof -
  have o: "gorm_Open SQLite ''authz.db'' sqlite_world
      = (Inr (SQLite, ''authz.db'', 0), sqlite_world)"
    by (simp add: gorm_Open_def sqlite_world_def)
  have m: "gorm_AutoMigrate (SQLite, ''authz.db'', 0) sqlite_world = (None, sqlite_world_migrated)"
    unfolding sqlite_world_after_migration[symmetric]
    by (simp add: gorm_AutoMigrate_def sqlite_world_def)
  have b: "buildAdapter sqlite_module sqlite_world
      = (Inr (Gorm \<lparr>db = (SQLite, ''authz.db'', 0), tableName = ''casbin_rule''\<rparr>),
         sqlite_world_migrated)"
    by (simp add: buildAdapter_def buildGORMAdapter_def sqlite_module_def lower_char_def
        driver_family_of_def o m newGORMAdapter_def)
  have n: "NewEnforcer sample_libs rbac_model
        (Gorm \<lparr>db = (SQLite, ''authz.db'', 0), tableName = ''casbin_rule''\<rparr>)
        sqlite_world_migrated
      = (Inr sqlite_engine, record_call LoadPolicyCall sqlite_world_migrated)"
    by (simp add: NewEnforcer_def Adapter_LoadPolicy_def gorm_LoadPolicy_def gorm_Find_def
        record_call_def sqlite_world_migrated_def sqlite_engine_def)
  have md: "NewModelFromString sample_libs (Model (config sqlite_module)) = Inr rbac_model"
    by (simp add: sample_libs_def sqlite_module_def)
  show ?thesis
    by (simp add: Init_def md b n sqlite_ready_def)
qed

lemma Init_sqlite_again:
  "Init sample_libs sqlite_ready (record_call LoadPolicyCall sqlite_world_migrated)
     = (Some (BuildAdapter ''authz'' (CreateGormAdapter ''authz''
               (GormMigrate (External ''table casbin_rule already exists'')))),
        sqlite_ready, record_call LoadPolicyCall sqlite_world_migrated)"
proof -
  let ?w = "record_call LoadPolicyCall sqlite_world_migrated"
  have o: "gorm_Open SQLite ''authz.db'' ?w = (Inr (SQLite, ''authz.db'', 0), ?w)"
    by (simp add: gorm_Open_def sqlite_world_migrated_def record_call_def)
  have m: "gorm_AutoMigrate (SQLite, ''authz.db'', 0) ?w
      = (Some (External ''table casbin_rule already exists''), ?w)"
    by (simp add: gorm_AutoMigrate_def sqlite_world_migrated_def record_call_def)
  have b: "buildAdapter sqlite_ready ?w
      = (Inl (CreateGormAdapter ''authz''
               (GormMigrate (External ''table casbin_rule already exists''))), ?w)"
    by (simp add: buildAdapter_def buildGORMAdapter_def sqlite_ready_def sqlite_module_def
        lower_char_def driver_family_of_def o m newGORMAdapter_def)
  have md: "NewModelFromString sample_libs (Model (config sqlite_ready)) = Inr rbac_model"
    by (simp add: sample_libs_def sqlite_ready_def sqlite_module_def)
  have nm: "name sqlite_ready = ''authz''"
    by (simp add: sqlite_ready_def sqlite_module_def)
  show ?thesis
    by (simp add: Init_def md b nm)
qed

text \<open>
  Claim C3. Calling \<open>Init\<close> twice on a module with the same configuration is not an
  error, replaces the engine and the rule set, and gives the same \<open>Enforce\<close> results
  as calling it once. The code does not do this for a module on the relational adapter
  with an SQLite database in a file: the first \<open>Init\<close> creates the rule table and
  succeeds, the second \<open>Init\<close> runs the migration again, which fails on the table that
  is now there, and returns that error, leaving the engine of the first call in place.
  On the in-memory adapter the second \<open>Init\<close> succeeds, as the claim says.
\<close>

theorem Init_twice_sqlite_fails:
  "Init sample_libs sqlite_module sqlite_world
     = (None, sqlite_ready, record_call LoadPolicyCall sqlite_world_migrated)
   \<and> Init sample_libs sqlite_ready (record_call LoadPolicyCall sqlite_world_migrated)
     = (Some (BuildAdapter ''authz'' (CreateGormAdapter ''authz''
               (GormMigrate (External ''table casbin_rule already exists'')))),
        sqlite_ready, record_call LoadPolicyCall sqlite_world_migrated)
   \<and> Init sample_libs sample_module empty_world
     = (None, sample_ready, record_call LoadPolicyCall empty_world)
   \<and> Init sample_libs sample_ready (record_call LoadPolicyCall empty_world)
     = (None, sample_ready, record_call LoadPolicyCall (record_call LoadPolicyCall empty_world))"
proof -
  have "ToLower (Type (Adapter (config sample_module))) \<noteq> ''gorm''"
    by (simp add: sample_module_def no_adapter_def)
  from Init_twice_without_database[OF this Init_sample_module]
  show ?thesis
    by (simp add: Init_sqlite_module Init_sqlite_again Init_sample_module)
qed

section \<open>Driver names of the relational adapter\<close>

lemma driver_family_of_None:
  "driver_family_of d = None
     \<longleftrightarrow> d \<notin> {''postgres'', ''postgresql'', ''mysql'', ''sqlite3'', ''sqlite''}"
  by (simp add: driver_family_of_def)

lemma buildAdapter_unsupported_driver:
  assumes "ToLower (Type (Adapter (config m))) = ''gorm''"
    and "ToLower (Driver (Adapter (config m)))
           \<notin> {''postgres'', ''postgresql'', ''mysql'', ''sqlite3'', ''sqlite''}"
  shows "buildAdapter m w =
     (Inl (if DSN (Adapter (config m)) = [] then AdapterDsnRequired (name m)
           else UnsupportedGormDriver (name m) (Driver (Adapter (config m)))), w)"
proof -
  have "driver_family_of (ToLower (Driver (Adapter (config m)))) = None"
    using assms(2) by (simp only: driver_family_of_None not_False_eq_True)
  then show ?thesis
    using assms(1) by (simp add: buildAdapter_def buildGORMAdapter_def)
qed

text \<open>
  Claim C9, as amended. For every module configured with the relational adapter and a
  driver name that, in lower case, is none of \<open>postgres\<close>, \<open>postgresql\<close>, \<open>mysql\<close>,
  \<open>sqlite3\<close> and \<open>sqlite\<close>: \<open>Init\<close> fails without reading or changing the stores
  and leaves the module as it was; the error is the configuration error of the adapter
  (the missing data source name if there is none, the unsupported driver otherwise),
  unless the model text does not parse, which is reported first. A module that was
  not initialised stays so, and \<open>Enforce\<close> on it fails with the not-initialised error.
\<close>

theorem Init_unsupported_driver:
  assumes "ToLower (Type (Adapter (config m))) = ''gorm''"
    and "ToLower (Driver (Adapter (config m)))
           \<notin> {''postgres'', ''postgresql'', ''mysql'', ''sqlite3'', ''sqlite''}"
    and "enforcer m = None"
  shows "Init L m w =
      (Some (case NewModelFromString L (Model (config m)) of
               Inl err \<Rightarrow> ParseModel (name m) err
             | Inr md \<Rightarrow>
                 BuildAdapter (name m)
                   (if DSN (Adapter (config m)) = [] then AdapterDsnRequired (name m)
                    else UnsupportedGormDriver (name m) (Driver (Adapter (config m))))),
       m, w)
     \<and> Enforce (fst (snd (Init L m w))) sub obj act
         = (False, Some (EnforcerNotInitialized (name m)))"
proof -
  have i: "Init L m w =
      (Some (case NewModelFromString L (Model (config m)) of
               Inl err \<Rightarrow> ParseModel (name m) err
             | Inr md \<Rightarrow>
                 BuildAdapter (name m)
                   (if DSN (Adapter (config m)) = [] then AdapterDsnRequired (name m)
                    else UnsupportedGormDriver (name m) (Driver (Adapter (config m))))),
       m, w)"
    by (cases "NewModelFromString L (Model (config m))")
       (simp_all add: Init_def buildAdapter_unsupported_driver[OF assms(1) assms(2)])
  have "Enforce m sub obj act = (False, Some (EnforcerNotInitialized (name m)))"
    using assms(3) by (simp add: Enforce_def)
  with i show ?thesis by simp
qed

theorem Init_unsupported_driver_witness:
  "ToLower (Type (Adapter (config oracle_module))) = ''gorm''
   \<and> ToLower (Driver (Adapter (config oracle_module))) = ''oracle''
   \<and> Init sample_libs oracle_module sqlite_world
        = (Some (BuildAdapter ''authz'' (UnsupportedGormDriver ''authz'' ''oracle'')),
           oracle_module, sqlite_world)
   \<and> Enforce (fst (snd (Init sample_libs oracle_module sqlite_world))) ''alice'' ''/api'' ''GET''
        = (False, Some (EnforcerNotInitialized ''authz''))"
proof -
  have 1: "ToLower (Type (Adapter (config oracle_module))) = ''gorm''"
    by (simp add: oracle_module_def lower_char_def)
  have d: "ToLower (Driver (Adapter (config oracle_module))) = ''oracle''"
    by (simp add: oracle_module_def lower_char_def)
  have 2: "ToLower (Driver (Adapter (config oracle_module)))
           \<notin> {''postgres'', ''postgresql'', ''mysql'', ''sqlite3'', ''sqlite''}"
    by (simp add: d)
  have 3: "enforcer oracle_module = None"
    by (simp add: oracle_module_def)
  have 4: "NewModelFromString sample_libs (Model (config oracle_module)) = Inr rbac_model"
    by (simp add: oracle_module_def sample_libs_def)
  have 5: "DSN (Adapter (config oracle_module)) = ''whatever''"
      "name oracle_module = ''authz''" "Driver (Adapter (config oracle_module)) = ''oracle''"
    by (simp_all add: oracle_module_def)
  have t: "Init sample_libs oracle_module sqlite_world
        = (Some (BuildAdapter ''authz'' (UnsupportedGormDriver ''authz'' ''oracle'')),
           oracle_module, sqlite_world)
      \<and> Enforce (fst (snd (Init sample_libs oracle_module sqlite_world)))
            ''alice'' ''/api'' ''GET''
          = (False, Some (EnforcerNotInitialized ''authz''))"
    using Init_unsupported_driver [OF 1 2 3, of sample_libs sqlite_world
        "''alice''" "''/api''" "''GET''"]
    unfolding 4 5 by auto
  show ?thesis
    using 1 d t by blast
qed

text \<open>
  The claim as stated, with the supported set \<open>postgres, mysql, sqlite3\<close>, fails for the
  driver name \<open>sqlite\<close>: the adapter accepts it, \<open>Init\<close> succeeds and \<open>Enforce\<close>
  answers.
\<close>

theorem Init_unsupported_driver_counterexample:
  "ToLower (Type (Adapter (config sqlite_module))) = ''gorm''
   \<and> Driver (Adapter (config sqlite_module)) = ''sqlite''
   \<and> ''sqlite'' \<notin> {''postgres'', ''mysql'', ''sqlite3''}
   \<and> Init sample_libs sqlite_module sqlite_world
        = (None, sqlite_ready, record_call LoadPolicyCall sqlite_world_migrated)
   \<and> Enforce sqlite_ready ''alice'' ''/api'' ''GET'' = (False, None)"
  by (simp add: Init_sqlite_module)
     (simp add: sqlite_module_def sqlite_ready_def sqlite_engine_def lower_char_def Enforce_def
        Enforcer_Enforce_def rbac_model_def some_allow_def)

section \<open>The check step\<close>

lemma resolveSubject_outputs_None:
  "\<forall>out \<in> set outs. \<not> holds_subject out key \<Longrightarrow> resolveSubject_outputs key outs = None"
  by (induction outs) (auto simp: holds_subject_def split: option.splits)

lemma resolveSubject_missing:
  assumes "\<forall>out \<in> set (map snd stepOutputs). \<not> holds_subject out key"
    and "\<not> holds_subject current key"
    and "\<not> holds_subject triggerData key"
  shows "resolveSubject key stepOutputs current triggerData = []"
  using resolveSubject_outputs_None[OF assms(1)] assms(2,3)
  by (auto simp: resolveSubject_def holds_subject_def split: option.splits)

text \<open>
  Claim C5. When the subject key holds a non-empty string in none of the outputs of the
  steps before, nor in the current context, nor in the trigger data, the check step
  returns the deny result with the flag that stops the pipeline, whatever the registry
  holds, and makes no call of \<open>Enforce\<close>.
\<close>

theorem Check_missing_subject_denies:
  assumes "\<forall>out \<in> set (map snd stepOutputs). \<not> holds_subject out (subjectKey s)"
    and "\<not> holds_subject current (subjectKey s)"
    and "\<not> holds_subject triggerData (subjectKey s)"
  shows "authzCheck_Execute L registry s triggerData stepOutputs current
      = (Inr (forbiddenResult L
               ''missing authentication subject; ensure step.auth_required runs first''), [])
     \<and> StopPipeline (forbiddenResult L
          ''missing authentication subject; ensure step.auth_required runs first'')
     \<and> Output (forbiddenResult L
          ''missing authentication subject; ensure step.auth_required runs first'')
          ''authz_allowed'' = Some (ABool False)
     \<and> Output (forbiddenResult L
          ''missing authentication subject; ensure step.auth_required runs first'')
          ''response_status'' = Some (AInt 403)"
  using resolveSubject_missing[OF assms]
  by (simp add: authzCheck_Execute_def forbiddenResult_def)

lemma Execute_call_cases:
  assumes "snd (authzCheck_Execute L registry s triggerData stepOutputs current)
      = [(mn, sub, obj, act)]"
  shows "\<exists>md. registry (moduleName s) = Some md \<and> mn = moduleName s
       \<and> sub = resolveSubject (subjectKey s) stepOutputs current triggerData \<and> sub \<noteq> []
       \<and> resolve L (object s) (objectTmpl s)
            (buildTemplateData triggerData stepOutputs current) = Inr obj
       \<and> resolve L (action s) (actionTmpl s)
            (buildTemplateData triggerData stepOutputs current) = Inr act"
  using assms
  by (auto simp: authzCheck_Execute_def Let_def
      split: if_splits sum.splits option.splits prod.splits)

text \<open>
  Claim C6. When an execution of the check step has called \<open>Enforce\<close> and the answer
  was \<open>false\<close> without an error, the step returns a result and no error: the status
  403, a body \<open>{"error":...}\<close> whose quoted message names the subject, the action and
  the object, the content type of JSON, the allowed flag \<open>false\<close>, and the flag that
  stops the pipeline.
\<close>

theorem Check_denied_result:
  assumes "registry (moduleName s) = Some md"
    and "snd (authzCheck_Execute L registry s triggerData stepOutputs current)
           = [(moduleName s, sub, obj, act)]"
    and "Enforce md sub obj act = (False, None)"
  shows "fst (authzCheck_Execute L registry s triggerData stepOutputs current)
      = Inr \<lparr>Output = map_of
               [(''response_status'', AInt 403),
                (''response_body'',
                 AString (''{\"error\":''
                   @ quote L (''forbidden: '' @ sub @ '' is not permitted to '' @ act @ '' '' @ obj)
                   @ ''}'')),
                (''response_headers'', AMap [(''Content-Type'', AString ''application/json'')]),
                (''authz_allowed'', ABool False)],
             StopPipeline = True\<rparr>"
proof -
  obtain md' where c: "registry (moduleName s) = Some md'"
      "sub = resolveSubject (subjectKey s) stepOutputs current triggerData" "sub \<noteq> []"
      "resolve L (object s) (objectTmpl s)
         (buildTemplateData triggerData stepOutputs current) = Inr obj"
      "resolve L (action s) (actionTmpl s)
         (buildTemplateData triggerData stepOutputs current) = Inr act"
    using Execute_call_cases[OF assms(2)] by blast
  from c(1) assms(1) have "md' = md" by simp
  with c assms(3) show ?thesis
    by (simp add: authzCheck_Execute_def forbiddenResult_def Let_def)
qed

lemma newAuthzCheckStep_delete:
  "newAuthzCheckStep sample_libs ''check'' delete_step_config = Inr delete_step"
  by (simp add: newAuthzCheckStep_def delete_step_config_def delete_step_def config_string_or_def
      string_of_def isTemplate_def)

lemma newAuthzCheckStep_audited:
  "newAuthzCheckStep sample_libs ''check'' audited_step_config = Inr audited_step"
  by (simp add: newAuthzCheckStep_def audited_step_config_def audited_step_def
      config_string_or_def string_of_def isTemplate_def)

theorem Check_missing_subject_denies_witness:
  "\<not> holds_subject (map_of [(''auth_user_id'', AString '''')]) (subjectKey delete_step)
   \<and> \<not> holds_subject (map_of [(''auth_user_id'', AInt 7)]) (subjectKey delete_step)
   \<and> \<not> holds_subject no_context (subjectKey delete_step)
   \<and> authzCheck_Execute sample_libs sample_registry delete_step no_context
        [(''login'', map_of [(''auth_user_id'', AString '''')])]
        (map_of [(''auth_user_id'', AInt 7)])
      = (Inr (forbiddenResult sample_libs
               ''missing authentication subject; ensure step.auth_required runs first''), [])"
proof -
  have 1: "\<forall>out \<in> set (map snd [(''login'', map_of [(''auth_user_id'', AString '''')])]).
      \<not> holds_subject out (subjectKey delete_step)"
    by (simp add: holds_subject_def string_of_def delete_step_def)
  have 2: "\<not> holds_subject (map_of [(''auth_user_id'', AInt 7)]) (subjectKey delete_step)"
    by (simp add: holds_subject_def string_of_def delete_step_def)
  have 3: "\<not> holds_subject no_context (subjectKey delete_step)"
    by (simp add: holds_subject_def string_of_def delete_step_def no_context_def)
  have 4: "\<not> holds_subject (map_of [(''auth_user_id'', AString '''')]) (subjectKey delete_step)"
    using 1 by simp
  show ?thesis
    using 2 3 4 Check_missing_subject_denies [OF 1 2 3, of sample_libs sample_registry]
    by blast
qed

lemma delete_step_run:
  "authzCheck_Execute sample_libs sample_registry delete_step no_context [] alice_context
     = (Inr (forbiddenResult sample_libs ''forbidden: alice is not permitted to DELETE /api''),
        [(''authz'', ''alice'', ''/api'', ''DELETE'')])"
  by (simp add: authzCheck_Execute_def delete_step_def resolveSubject_def alice_context_def
      string_of_def resolve_def sample_registry_def Enforce_def Enforcer_Enforce_def
      sample_ready_def sample_engine_def rbac_model_def rbac_matcher_def row_result_def
      some_allow_def)

theorem Check_denied_result_witness:
  "sample_registry (moduleName delete_step) = Some sample_ready
   \<and> snd (authzCheck_Execute sample_libs sample_registry delete_step no_context [] alice_context)
       = [(moduleName delete_step, ''alice'', ''/api'', ''DELETE'')]
   \<and> Enforce sample_ready ''alice'' ''/api'' ''DELETE'' = (False, None)
   \<and> fst (authzCheck_Execute sample_libs sample_registry delete_step no_context [] alice_context)
       = Inr \<lparr>Output = map_of
               [(''response_status'', AInt 403),
                (''response_body'',
                 AString ''{\"error\":\"forbidden: alice is not permitted to DELETE /api\"}''),
                (''response_headers'', AMap [(''Content-Type'', AString ''application/json'')]),
                (''authz_allowed'', ABool False)],
             StopPipeline = True\<rparr>"
proof -
  have 1: "sample_registry (moduleName delete_step) = Some sample_ready"
    by (simp add: sample_registry_def delete_step_def)
  have 2: "snd (authzCheck_Execute sample_libs sample_registry delete_step no_context []
      alice_context) = [(moduleName delete_step, ''alice'', ''/api'', ''DELETE'')]"
    by (simp add: delete_step_run) (simp add: delete_step_def)
  have 3: "Enforce sample_ready ''alice'' ''/api'' ''DELETE'' = (False, None)"
    by (simp add: Enforce_def Enforcer_Enforce_def sample_ready_def sample_engine_def
        rbac_model_def rbac_matcher_def row_result_def some_allow_def)
  have 4: "quote sample_libs (''forbidden: '' @ ''alice'' @ '' is not permitted to ''
      @ ''DELETE'' @ '' '' @ ''/api'') = ''\"forbidden: alice is not permitted to DELETE /api\"''"
    by (simp add: sample_libs_def)
  have 5: "fst (authzCheck_Execute sample_libs sample_registry delete_step no_context []
        alice_context)
       = Inr \<lparr>Output = map_of
               [(''response_status'', AInt 403),
                (''response_body'',
                 AString ''{\"error\":\"forbidden: alice is not permitted to DELETE /api\"}''),
                (''response_headers'', AMap [(''Content-Type'', AString ''application/json'')]),
                (''authz_allowed'', ABool False)],
             StopPipeline = True\<rparr>"
    using Check_denied_result [OF 1 2 3] unfolding 4 by simp
  show ?thesis
    using 1 2 3 5 by blast
qed

text \<open>
  Claim C7. The check step of the repository reads no audit flag and writes no audit
  record: a step configured with \<open>audit\<close> set to true is built as if the flag were
  not there, and its result for an allowed query carries the four decision keys and no
  \<open>audit_event\<close>.
\<close>

theorem Check_audit_flag_ignored:
  "audited_step_config ''audit'' = Some (ABool True)
   \<and> newAuthzCheckStep sample_libs ''check'' audited_step_config = Inr audited_step
   \<and> authzCheck_Execute sample_libs sample_registry audited_step no_context [] alice_context
       = (Inr \<lparr>Output = map_of
                 [(''authz_subject'', AString ''alice''),
                  (''authz_object'', AString ''/api''),
                  (''authz_action'', AString ''GET''),
                  (''authz_allowed'', ABool True)],
               StopPipeline = False\<rparr>,
          [(''authz'', ''alice'', ''/api'', ''GET'')])
   \<and> map_of [(''authz_subject'', AString ''alice''),
              (''authz_object'', AString ''/api''),
              (''authz_action'', AString ''GET''),
              (''authz_allowed'', ABool True)] ''audit_event'' = None"
  by (simp add: newAuthzCheckStep_audited)
     (simp add: audited_step_config_def authzCheck_Execute_def audited_step_def
        resolveSubject_def alice_context_def string_of_def resolve_def sample_registry_def
        Enforce_def Enforcer_Enforce_def sample_ready_def sample_engine_def rbac_model_def
        rbac_matcher_def row_result_def some_allow_def Let_def)

section \<open>The role assignment step\<close>

lemma length_compileRuleTemplates_loop:
  "compileRuleTemplates_loop L i rule = (st, tm) \<Longrightarrow> length st = length rule"
  by (induction rule arbitrary: i st tm)
     (auto simp: Let_def split: prod.splits if_splits sum.splits)

lemma length_compileRuleTemplates:
  "compileRuleTemplates L rule = (st, tm) \<Longrightarrow> length st = length rule"
  unfolding compileRuleTemplates_def by (rule length_compileRuleTemplates_loop)

lemma loop_accepts:
  assumes "list_all pair_accepted xs"
    and "\<forall>a \<in> set (assignments s). 2 \<le> length (static a)"
  shows "\<exists>s'. newAuthzRoleAssignStep_loop L nm i xs s = Inr s'
           \<and> ra_action s' = ra_action s
           \<and> (\<forall>a \<in> set (assignments s'). 2 \<le> length (static a))"
  using assms
proof (induction xs arbitrary: i s)
  case Nil
  then show ?case by simp
next
  case (Cons a xs)
  from Cons.prems(1) obtain row where row: "toStringSlice a = Inr row" "2 \<le> length row"
    by (auto simp: pair_accepted_def split: sum.splits)
  obtain st tm where c: "compileRuleTemplates L row = (st, tm)"
    by (cases "compileRuleTemplates L row") auto
  have l: "2 \<le> length st"
    using length_compileRuleTemplates[OF c] row(2) by simp
  let ?s1 = "s\<lparr>assignments := assignments s @ [\<lparr>static = st, tmpls = tm\<rparr>]\<rparr>"
  have "\<forall>a \<in> set (assignments ?s1). 2 \<le> length (static a)"
    using Cons.prems(2) l by auto
  moreover have "list_all pair_accepted xs" using Cons.prems(1) by simp
  ultimately obtain s' where
    "newAuthzRoleAssignStep_loop L nm (Suc i) xs ?s1 = Inr s'"
    "ra_action s' = ra_action ?s1"
    "\<forall>a \<in> set (assignments s'). 2 \<le> length (static a)"
    using Cons.IH[of ?s1 "Suc i"] by blast
  then show ?case using row c by auto
qed

lemma loop_rejects:
  "\<not> list_all pair_accepted xs \<Longrightarrow> \<exists>err. newAuthzRoleAssignStep_loop L nm i xs s = Inl err"
proof (induction xs arbitrary: i s)
  case Nil
  then show ?case by simp
next
  case (Cons a xs)
  show ?case
  proof (cases "pair_accepted a")
    case False
    then show ?thesis
      by (auto simp: pair_accepted_def split: sum.splits)
  next
    case True
    with Cons.prems have "\<not> list_all pair_accepted xs" by simp
    from Cons.IH[OF this] True show ?thesis
      by (auto simp: pair_accepted_def split: sum.splits prod.splits)
  qed
qed

lemma RoleAssign_after_action:
  assumes "action_accepted cfg"
  shows "\<exists>act. (act = ''add'' \<or> act = ''remove'')
     \<and> act = (case string_of (cfg ''action'') of Some v \<Rightarrow> if v = [] then ''add'' else v | None \<Rightarrow> ''add'')
     \<and> newAuthzRoleAssignStep L nm cfg =
        (case cfg ''assignments'' of
           Some (ASlice raw) \<Rightarrow>
             if length raw = 0 then Inl (AssignmentsRequired nm)
             else newAuthzRoleAssignStep_loop L nm 0 raw
                    \<lparr>ra_name = nm, ra_moduleName = config_string_or cfg ''module'' ''authz'',
                     ra_action = act, assignments = []\<rparr>
         | _ \<Rightarrow> Inl (AssignmentsRequired nm))"
proof (cases "string_of (cfg ''action'')")
  case None
  then show ?thesis
    by (intro exI[of _ "''add''"]) (simp add: newAuthzRoleAssignStep_def)
next
  case (Some v)
  show ?thesis
  proof (cases "v = []")
    case True
    with Some show ?thesis
      by (intro exI[of _ "''add''"]) (simp add: newAuthzRoleAssignStep_def)
  next
    case False
    with Some assms have v: "v = ''add'' \<or> v = ''remove''"
      by (simp add: action_accepted_def)
    with Some False show ?thesis
      by (intro exI[of _ v])
         (auto simp: newAuthzRoleAssignStep_def split: option.splits any.splits)
  qed
qed

lemma RoleAssign_action_rejected:
  assumes "\<not> action_accepted cfg"
  shows "\<exists>v. cfg ''action'' = Some (AString v)
           \<and> newAuthzRoleAssignStep L nm cfg = Inl (RoleActionInvalid nm v)"
proof -
  from assms obtain v where v: "string_of (cfg ''action'') = Some v" "v \<noteq> []" "v \<noteq> ''add''"
      "v \<noteq> ''remove''"
    by (auto simp: action_accepted_def split: option.splits)
  then have a: "cfg ''action'' = Some (AString v)"
    by (auto simp: string_of_def split: option.splits any.splits)
  have "newAuthzRoleAssignStep L nm cfg = Inl (RoleActionInvalid nm v)"
    using v by (simp add: newAuthzRoleAssignStep_def)
  with a show ?thesis by blast
qed

lemma RoleAssign_assignments_rejected:
  assumes "action_accepted cfg" "\<not> assignments_accepted cfg"
  shows "\<exists>err. newAuthzRoleAssignStep L nm cfg = Inl err"
proof -
  obtain act where step: "newAuthzRoleAssignStep L nm cfg =
        (case cfg ''assignments'' of
           Some (ASlice raw) \<Rightarrow>
             if length raw = 0 then Inl (AssignmentsRequired nm)
             else newAuthzRoleAssignStep_loop L nm 0 raw
                    \<lparr>ra_name = nm, ra_moduleName = config_string_or cfg ''module'' ''authz'',
                     ra_action = act, assignments = []\<rparr>
         | _ \<Rightarrow> Inl (AssignmentsRequired nm))"
    using RoleAssign_after_action[OF assms(1), of L nm] by blast
  show ?thesis
  proof (cases "cfg ''assignments''")
    case None
    then show ?thesis by (simp add: step)
  next
    case (Some x)
    show ?thesis
    proof (cases x)
      case (ASlice raw)
      show ?thesis
      proof (cases "raw = []")
        case True
        with Some ASlice show ?thesis by (simp add: step)
      next
        case False
        with assms(2) Some ASlice have "\<not> list_all pair_accepted raw"
          by (simp add: assignments_accepted_def)
        from loop_rejects[OF this] Some ASlice False
        show ?thesis by (simp add: step)
      qed
    qed (simp_all add: step Some)
  qed
qed

lemma RoleAssign_accepted:
  assumes "action_accepted cfg" "assignments_accepted cfg"
  shows "\<exists>s. newAuthzRoleAssignStep L nm cfg = Inr s
           \<and> (ra_action s = ''add'' \<or> ra_action s = ''remove'')
           \<and> ra_action s = (case string_of (cfg ''action'') of Some v \<Rightarrow> if v = [] then ''add'' else v | None \<Rightarrow> ''add'')
           \<and> (\<forall>a \<in> set (assignments s). 2 \<le> length (static a))"
proof -
  obtain act where act: "act = ''add'' \<or> act = ''remove''"
    and dflt: "act = (case string_of (cfg ''action'') of Some v \<Rightarrow> if v = [] then ''add'' else v | None \<Rightarrow> ''add'')"
    and step: "newAuthzRoleAssignStep L nm cfg =
        (case cfg ''assignments'' of
           Some (ASlice raw) \<Rightarrow>
             if length raw = 0 then Inl (AssignmentsRequired nm)
             else newAuthzRoleAssignStep_loop L nm 0 raw
                    \<lparr>ra_name = nm, ra_moduleName = config_string_or cfg ''module'' ''authz'',
                     ra_action = act, assignments = []\<rparr>
         | _ \<Rightarrow> Inl (AssignmentsRequired nm))"
    using RoleAssign_after_action[OF assms(1), of L nm] by blast
  let ?s1 = "\<lparr>ra_name = nm, ra_moduleName = config_string_or cfg ''module'' ''authz'',
               ra_action = act, assignments = []\<rparr>"
  from assms(2) obtain raw where raw: "cfg ''assignments'' = Some (ASlice raw)" "raw \<noteq> []"
      "list_all pair_accepted raw"
    by (auto simp: assignments_accepted_def split: option.splits any.splits)
  have "\<forall>a \<in> set (assignments ?s1). 2 \<le> length (static a)" by simp
  from loop_accepts[OF raw(3) this, of L nm 0]
  obtain s' where s': "newAuthzRoleAssignStep_loop L nm 0 raw ?s1 = Inr s'"
      "ra_action s' = ra_action ?s1"
      "\<forall>a \<in> set (assignments s'). 2 \<le> length (static a)"
    by blast
  have "newAuthzRoleAssignStep L nm cfg = Inr s'"
    using raw s'(1) by (simp add: step)
  moreover have "ra_action s' = ''add'' \<or> ra_action s' = ''remove''"
    using s'(2) act by simp
  moreover have "ra_action s' = (case string_of (cfg ''action'') of Some v \<Rightarrow> if v = [] then ''add'' else v | None \<Rightarrow> ''add'')"
    using s'(2) dflt by simp
  ultimately show ?thesis using s'(3) by blast
qed

text \<open>
  Claim C8, as amended. Constructing a role assignment step succeeds exactly when the
  action is accepted (absent, not a string, empty, \<open>add\<close> or \<open>remove\<close>) and the
  assignments are a non-empty slice of string slices with at least two fields each. A
  non-empty action string other than \<open>add\<close> and \<open>remove\<close> fails the construction with
  the invalid-action error. Every step that is constructed has the action \<open>add\<close> or
  \<open>remove\<close>, namely the configured action when that is a non-empty string and \<open>add\<close>
  otherwise, and only assignments of at least two fields, so neither check can fail
  when the step runs.
\<close>

theorem RoleAssign_construction_checks:
  "((\<exists>s. newAuthzRoleAssignStep L nm cfg = Inr s)
      \<longleftrightarrow> action_accepted cfg \<and> assignments_accepted cfg)
   \<and> (\<not> action_accepted cfg \<longrightarrow>
        (\<exists>v. cfg ''action'' = Some (AString v)
              \<and> newAuthzRoleAssignStep L nm cfg = Inl (RoleActionInvalid nm v)))
   \<and> (\<forall>s. newAuthzRoleAssignStep L nm cfg = Inr s \<longrightarrow>
          (ra_action s = ''add'' \<or> ra_action s = ''remove'')
          \<and> ra_action s = (case string_of (cfg ''action'') of
                             Some v \<Rightarrow> if v = [] then ''add'' else v
                           | None \<Rightarrow> ''add'')
          \<and> (\<forall>a \<in> set (assignments s). 2 \<le> length (static a)))"
proof (intro conjI)
  show "(\<exists>s. newAuthzRoleAssignStep L nm cfg = Inr s)
      \<longleftrightarrow> action_accepted cfg \<and> assignments_accepted cfg"
  proof
    assume ok: "\<exists>s. newAuthzRoleAssignStep L nm cfg = Inr s"
    have a: "action_accepted cfg"
    proof (rule ccontr)
      assume "\<not> action_accepted cfg"
      from RoleAssign_action_rejected[OF this, of L nm] ok show False by auto
    qed
    have "assignments_accepted cfg"
    proof (rule ccontr)
      assume "\<not> assignments_accepted cfg"
      from RoleAssign_assignments_rejected[OF a this, of L nm] ok show False by auto
    qed
    with a show "action_accepted cfg \<and> assignments_accepted cfg" by simp
  next
    assume "action_accepted cfg \<and> assignments_accepted cfg"
    then show "\<exists>s. newAuthzRoleAssignStep L nm cfg = Inr s"
      using RoleAssign_accepted[of cfg L nm] by blast
  qed
next
  show "\<not> action_accepted cfg \<longrightarrow>
        (\<exists>v. cfg ''action'' = Some (AString v)
              \<and> newAuthzRoleAssignStep L nm cfg = Inl (RoleActionInvalid nm v))"
    using RoleAssign_action_rejected[of cfg L nm] by blast
next
  show "\<forall>s. newAuthzRoleAssignStep L nm cfg = Inr s \<longrightarrow>
          (ra_action s = ''add'' \<or> ra_action s = ''remove'')
          \<and> ra_action s = (case string_of (cfg ''action'') of
                             Some v \<Rightarrow> if v = [] then ''add'' else v
                           | None \<Rightarrow> ''add'')
          \<and> (\<forall>a \<in> set (assignments s). 2 \<le> length (static a))"
  proof (intro allI impI)
    fix s
    assume s: "newAuthzRoleAssignStep L nm cfg = Inr s"
    have a: "action_accepted cfg"
    proof (rule ccontr)
      assume "\<not> action_accepted cfg"
      from RoleAssign_action_rejected[OF this, of L nm] s show False by auto
    qed
    have b: "assignments_accepted cfg"
    proof (rule ccontr)
      assume "\<not> assignments_accepted cfg"
      from RoleAssign_assignments_rejected[OF a this, of L nm] s show False by auto
    qed
    from RoleAssign_accepted[OF a b, of L nm] s
    show "(ra_action s = ''add'' \<or> ra_action s = ''remove'')
          \<and> ra_action s = (case string_of (cfg ''action'') of
                             Some v \<Rightarrow> if v = [] then ''add'' else v
                           | None \<Rightarrow> ''add'')
          \<and> (\<forall>a \<in> set (assignments s). 2 \<le> length (static a))"
      by auto
  qed
qed

lemma role_config_remove:
  "newAuthzRoleAssignStep sample_libs ''assign'' (role_config (AString ''remove''))
     = Inr (role_step ''remove'')"
  by (simp add: newAuthzRoleAssignStep_def role_config_def role_step_def config_string_or_def
      string_of_def toStringSlice_def compileRuleTemplates_def isTemplate_def)

theorem RoleAssign_construction_checks_witness:
  "action_accepted (role_config (AString ''remove''))
   \<and> assignments_accepted (role_config (AString ''remove''))
   \<and> newAuthzRoleAssignStep sample_libs ''assign'' (role_config (AString ''remove''))
        = Inr (role_step ''remove'')
   \<and> \<not> action_accepted (role_config (AString ''grant''))
   \<and> newAuthzRoleAssignStep sample_libs ''assign'' (role_config (AString ''grant''))
        = Inl (RoleActionInvalid ''assign'' ''grant'')"
proof -
  have 1: "action_accepted (role_config (AString ''remove''))"
    by (simp add: action_accepted_def role_config_def string_of_def)
  have 2: "assignments_accepted (role_config (AString ''remove''))"
    by (simp add: assignments_accepted_def role_config_def pair_accepted_def toStringSlice_def)
  have 3: "\<not> action_accepted (role_config (AString ''grant''))"
    by (simp add: action_accepted_def role_config_def string_of_def)
  have 4: "role_config (AString ''grant'') ''action'' = Some (AString ''grant'')"
    by (simp add: role_config_def)
  have 5: "newAuthzRoleAssignStep sample_libs ''assign'' (role_config (AString ''grant''))
        = Inl (RoleActionInvalid ''assign'' ''grant'')"
    using 3 4 RoleAssign_construction_checks
      [of sample_libs "''assign''" "role_config (AString ''grant'')"]
    by auto
  show ?thesis
    using 1 2 3 5 role_config_remove by blast
qed

text \<open>
  The claim as stated fails for an action value outside \<open>add\<close> and \<open>remove\<close> that is
  empty or not a string: the construction succeeds and the step adds.
\<close>

theorem RoleAssign_construction_counterexample:
  "role_config (AString '''') ''action'' = Some (AString '''')
   \<and> newAuthzRoleAssignStep sample_libs ''assign'' (role_config (AString ''''))
        = Inr (role_step ''add'')
   \<and> role_config (AInt 5) ''action'' = Some (AInt 5)
   \<and> newAuthzRoleAssignStep sample_libs ''assign'' (role_config (AInt 5))
        = Inr (role_step ''add'')"
  by (simp add: newAuthzRoleAssignStep_def role_config_def role_step_def config_string_or_def
      string_of_def toStringSlice_def compileRuleTemplates_def isTemplate_def)

end
